theory Spec2Isabelle
  imports
    Main
    "HOL-Library.Sublist"
    "HOL-Library.Char_ord"
    "HOL-Library.List_Lexorder"
    "HOL-Library.AList"
begin

section \<open>Results of Go code\<close>

text \<open>
  A Go function either returns or panics (an index or a slice bound out of range).
  \<open>Panic\<close> is the run-time panic; it is not an \<open>error\<close> value and no caller in
  this program recovers from it.
\<close>

datatype 'a go = Return 'a | Panic

text \<open>
  Go errors. \<open>Errorf msg e\<close> is \<open>fmt.Errorf(msg + ": %w", e)\<close>: the message with the
  wrapped cause. \<open>Canceled\<close> and \<open>DeadlineExceeded\<close> are the two values of
  \<open>ctx.Err()\<close>; \<open>ErrNotExist\<close>, \<open>ErrIsDir\<close>, \<open>ErrNotDir\<close> and
  \<open>ErrNotEmpty\<close> are the errors of the \<open>os\<close> package the model distinguishes,
  \<open>ErrObjectNotExist\<close> is the one of the GCS client, and \<open>ErrOther\<close> is any
  other failure of a library or of the network, with its text.
\<close>

datatype error =
    Errorf string error
  | Canceled
  | DeadlineExceeded
  | ErrNotExist
  | ErrIsDir
  | ErrNotDir
  | ErrNotEmpty
  | ErrObjectNotExist
  | ErrOther string

section \<open>backup.go: the substring search\<close>

text \<open>
  \<open>s[lo:hi]\<close> on a Go string: the bytes from \<open>lo\<close> up to \<open>hi\<close>, and a panic
  unless \<open>0 \<le> lo \<le> hi \<le> len(s)\<close>.
\<close>

definition slice :: "string \<Rightarrow> int \<Rightarrow> int \<Rightarrow> string go" where
  "slice s lo hi =
     (if 0 \<le> lo \<and> lo \<le> hi \<and> hi \<le> int (length s)
      then Return (take (nat (hi - lo)) (drop (nat lo) s))
      else Panic)"

text \<open>
  The loop of \<open>findSubstring\<close>, from index \<open>i\<close>:
  \<^verbatim>\<open>for i := 0; i <= len(s)-len(substr); i++ { if s[i:i+len(substr)] == substr { return true } }; return false\<close>
\<close>

function findSubstring_from :: "string \<Rightarrow> string \<Rightarrow> int \<Rightarrow> bool go" where
  "findSubstring_from s substr i =
     (if i \<le> int (length s) - int (length substr) then
        (case slice s i (i + int (length substr)) of
           Panic \<Rightarrow> Panic
         | Return t \<Rightarrow> if t = substr then Return True else findSubstring_from s substr (i + 1))
      else Return False)"
  by pat_completeness auto
termination
  by (relation "measure (\<lambda>(s, substr, i). nat (int (length s) - int (length substr) - i + 1))") auto

definition findSubstring :: "string \<Rightarrow> string \<Rightarrow> bool go" where
  "findSubstring s substr = findSubstring_from s substr 0"

text \<open>\<open>len(s) >= len(substr) && findSubstring(s, substr)\<close>; \<open>&&\<close> does not evaluate its
  right operand when the left one is false.\<close>

definition containsString :: "string \<Rightarrow> string \<Rightarrow> bool go" where
  "containsString s substr =
     (if length s \<ge> length substr then findSubstring s substr else Return False)"

definition containsBGSAVEInProgress :: "string \<Rightarrow> bool go" where
  "containsBGSAVEInProgress info = containsString info ''rdb_bgsave_in_progress:1''"

declare findSubstring_from.simps [simp del]

section \<open>Library functions the program calls\<close>

text \<open>
  The standard library is not part of the repository. Each function below follows the
  documented behaviour of the Go function it is named after, on Linux (the image is
  built with \<open>GOOS=linux\<close>, so the path separator is \<open>/\<close>).
\<close>

definition strings_HasSuffix :: "string \<Rightarrow> string \<Rightarrow> bool" where
  "strings_HasSuffix s suf =
     (length s \<ge> length suf \<and> drop (length s - length suf) s = suf)"

definition strings_TrimSuffix :: "string \<Rightarrow> string \<Rightarrow> string" where
  "strings_TrimSuffix s suf =
     (if strings_HasSuffix s suf then take (length s - length suf) s else s)"

fun strings_Join :: "string list \<Rightarrow> string \<Rightarrow> string" where
  "strings_Join [] sep = []"
| "strings_Join [x] sep = x"
| "strings_Join (x # y # ys) sep = x @ sep @ strings_Join (y # ys) sep"

text \<open>The elements of a path between its separators, empty ones included.\<close>

primrec path_elements :: "string \<Rightarrow> string list" where
  "path_elements [] = [[]]"
| "path_elements (c # cs) =
     (if c = CHR ''/'' then [] # path_elements cs
      else (case path_elements cs of [] \<Rightarrow> [[c]] | x # xs \<Rightarrow> (c # x) # xs))"

text \<open>
  \<open>filepath.Clean\<close>: empty and \<open>.\<close> elements are dropped, a \<open>..\<close> element removes
  the element before it, is dropped at the root, and is kept at the start of a path that
  is not rooted. The elements kept so far are held newest first.
\<close>

definition clean_element :: "bool \<Rightarrow> string list \<Rightarrow> string \<Rightarrow> string list" where
  "clean_element rooted kept e =
     (if e = [] \<or> e = ''.'' then kept
      else if e = ''..'' then
        (case kept of
           [] \<Rightarrow> if rooted then [] else [e]
         | e0 # rest \<Rightarrow> if e0 \<noteq> ''..'' then rest else if rooted then kept else e # kept)
      else e # kept)"

definition filepath_Clean :: "string \<Rightarrow> string" where
  "filepath_Clean path =
     (if path = [] then ''.''
      else
        let rooted = (hd path = CHR ''/'');
            body = strings_Join (rev (foldl (clean_element rooted) [] (path_elements path))) ''/''
        in if rooted then CHR ''/'' # body else if body = [] then ''.'' else body)"

fun filepath_Join :: "string list \<Rightarrow> string" where
  "filepath_Join [] = []"
| "filepath_Join (e # es) =
     (if e \<noteq> [] then filepath_Clean (strings_Join (e # es) ''/'') else filepath_Join es)"

definition filepath_Base :: "string \<Rightarrow> string" where
  "filepath_Base path =
     (if path = [] then ''.''
      else
        let stripped = rev (dropWhile (\<lambda>c. c = CHR ''/'') (rev path));
            final = rev (takeWhile (\<lambda>c. c \<noteq> CHR ''/'') (rev stripped))
        in if final = [] then ''/'' else final)"

definition filepath_Ext :: "string \<Rightarrow> string" where
  "filepath_Ext path =
     (let final = rev (takeWhile (\<lambda>c. c \<noteq> CHR ''/'') (rev path))
      in if CHR ''.'' \<in> set final
         then CHR ''.'' # rev (takeWhile (\<lambda>c. c \<noteq> CHR ''.'') (rev final))
         else [])"

definition filepath_Dir :: "string \<Rightarrow> string" where
  "filepath_Dir path = filepath_Clean (rev (dropWhile (\<lambda>c. c \<noteq> CHR ''/'') (rev path)))"

text \<open>\<open>sort.Strings\<close>: ascending in the byte-wise order of Go strings.\<close>

definition sort_Strings :: "string list \<Rightarrow> string list" where
  "sort_Strings xs = sort xs"


subsection \<open>The time package\<close>

text \<open>
  A \<open>time.Time\<close> in UTC, by the calendar fields \<open>Format\<close> reads (those that
  \<open>t.Date()\<close> and \<open>t.Clock()\<close> return).
\<close>

record Time =
  Year :: int
  Month :: nat
  Day :: nat
  Hour :: nat
  Minute :: nat
  Second :: nat

definition digit_char :: "nat \<Rightarrow> char" where
  "digit_char d = char_of (48 + d)"

fun decimal :: "nat \<Rightarrow> string" where
  "decimal n = (if n < 10 then [digit_char n] else decimal (n div 10) @ [digit_char (n mod 10)])"

declare decimal.simps [simp del]

text \<open>
  \<open>appendInt(b, x, width)\<close> of package time: a minus sign for a negative number, then
  the decimal digits, padded with zeros on the left up to \<open>width\<close> and never cut.
\<close>

definition appendInt :: "int \<Rightarrow> nat \<Rightarrow> string" where
  "appendInt x width =
     (let u = nat \<bar>x\<bar>
      in (if x < 0 then ''-'' else []) @
         replicate (width - length (decimal u)) CHR ''0'' @ decimal u)"

text \<open>
  \<open>t.Format("2006-01-02_15-04-05")\<close>: the layout holds the four-digit year, the
  two-digit month, day, hour (24 h), minute and second, and the literal separators.
\<close>

definition Format :: "Time \<Rightarrow> string" where
  "Format t =
     appendInt (Year t) 4 @ ''-'' @ appendInt (int (Month t)) 2 @ ''-'' @
     appendInt (int (Day t)) 2 @ ''_'' @ appendInt (int (Hour t)) 2 @ ''-'' @
     appendInt (int (Minute t)) 2 @ ''-'' @ appendInt (int (Second t)) 2"

section \<open>The environment\<close>

text \<open>
  \<open>context.Context\<close> is a handle; whether it is done is a fact of the environment
  (fields \<open>wait_select\<close> and \<open>upload_select\<close> of the world below, and the faults of
  the clients, which fail with the context's error once it is done).
\<close>

datatype Context = Background | WithTimeout nat

text \<open>One line of the log: the format string of the source and its arguments.\<close>

datatype log_arg = ArgS string | ArgD int | ArgV error

datatype log_entry = Log string "log_arg list"

datatype redis_cmd = INFO string | BGSAVE

datatype fnode = File string | Directory

text \<open>
  Everything outside the program that it reads or changes.
  \<^item> \<open>logs\<close>: the lines written by package log, oldest first.
  \<^item> \<open>clock\<close>: what \<open>time.Now().UTC()\<close> returns.
  \<^item> \<open>redis_cmds\<close>: the commands the Redis server has received, oldest first;
    \<open>redis_info k\<close> and \<open>redis_bgsave k\<close>: the reply to an INFO, to a BGSAVE, received
    when \<open>k\<close> commands came before it (an error is a failed round trip).
  \<^item> \<open>wait_select k\<close>: what the \<open>select\<close> of the wait loop takes the \<open>k\<close>-th time it
    runs: \<open>Some e\<close> is the case \<open>ctx.Done()\<close> with \<open>ctx.Err() = e\<close>, \<open>None\<close> the
    ticker's case; \<open>selects\<close> counts the runs so far.
  \<^item> \<open>files\<close>: the file system, from cleaned path to node.
  \<^item> \<open>upload_select\<close>: what the \<open>select\<close> of the local upload takes: \<open>Some (e, k)\<close>
    is \<open>ctx.Done()\<close> with \<open>ctx.Err() = e\<close> when the copy has written \<open>k\<close> bytes,
    \<open>None\<close> the end of the copy.
  \<^item> \<open>s3_objects\<close>, \<open>gcs_objects\<close>: the objects of the two services, from bucket and
    key to content; \<open>s3_fault\<close>, \<open>gcs_fault\<close>: \<open>Some e\<close> when every request to the
    service fails with \<open>e\<close> (no network, no credentials, a context that is done);
    \<open>s3_page_size\<close>: how many keys a page of a listing holds.
\<close>

record world =
  logs :: "log_entry list"
  clock :: Time
  redis_cmds :: "redis_cmd list"
  redis_info :: "nat \<Rightarrow> error + string"
  redis_bgsave :: "nat \<Rightarrow> error option"
  wait_select :: "nat \<Rightarrow> error option"
  selects :: nat
  files :: "(string \<times> fnode) list"
  upload_select :: "(error \<times> nat) option"
  s3_objects :: "((string \<times> string) \<times> string) list"
  s3_fault :: "error option"
  s3_page_size :: nat
  gcs_objects :: "((string \<times> string) \<times> string) list"
  gcs_fault :: "error option"

definition log_Printf :: "string \<Rightarrow> log_arg list \<Rightarrow> world \<Rightarrow> world" where
  "log_Printf fmt args w = w\<lparr>logs := logs w @ [Log fmt args]\<rparr>"

definition log_Println :: "string \<Rightarrow> world \<Rightarrow> world" where
  "log_Println msg w = w\<lparr>logs := logs w @ [Log msg []]\<rparr>"

definition time_Now_UTC :: "world \<Rightarrow> Time" where
  "time_Now_UTC w = clock w"

subsection \<open>The Redis client\<close>

definition redis_Info :: "Context \<Rightarrow> string \<Rightarrow> world \<Rightarrow> (error + string) \<times> world" where
  "redis_Info ctx sect w =
     (redis_info w (length (redis_cmds w)), w\<lparr>redis_cmds := redis_cmds w @ [INFO sect]\<rparr>)"

definition redis_BgSave :: "Context \<Rightarrow> world \<Rightarrow> error option \<times> world" where
  "redis_BgSave ctx w =
     (redis_bgsave w (length (redis_cmds w)), w\<lparr>redis_cmds := redis_cmds w @ [BGSAVE]\<rparr>)"

subsection \<open>The file system\<close>

text \<open>
  Paths are resolved lexically (no symbolic links). A path \<open>k\<close> is an entry of the
  directory \<open>d\<close> when joining \<open>d\<close> with the last element of \<open>k\<close> gives \<open>k\<close> back.
\<close>

definition entry_of :: "string \<Rightarrow> string \<Rightarrow> bool" where
  "entry_of d k =
     (k \<noteq> d \<and> filepath_Base k \<notin> {''.'', ''..'', ''/''} \<and>
      filepath_Join [d, filepath_Base k] = k)"

text \<open>\<open>os.Open\<close>: the handle is the cleaned path of the opened file or directory.\<close>

definition os_Open :: "string \<Rightarrow> world \<Rightarrow> error + string" where
  "os_Open name w =
     (if name = [] then Inl ErrNotExist
      else case map_of (files w) (filepath_Clean name) of
             None \<Rightarrow> Inl ErrNotExist
           | Some _ \<Rightarrow> Inr (filepath_Clean name))"

text \<open>\<open>os.Create\<close>: the file is created in an existing directory, or cut to length 0.\<close>

definition os_Create :: "string \<Rightarrow> world \<Rightarrow> (error + string) \<times> world" where
  "os_Create name w =
     (if name = [] then (Inl ErrNotExist, w)
      else
        let p = filepath_Clean name in
        case map_of (files w) p of
          Some Directory \<Rightarrow> (Inl ErrIsDir, w)
        | _ \<Rightarrow>
          (case map_of (files w) (filepath_Dir p) of
             None \<Rightarrow> (Inl ErrNotExist, w)
           | Some (File _) \<Rightarrow> (Inl ErrNotDir, w)
           | Some Directory \<Rightarrow> (Inr p, w\<lparr>files := AList.update p (File []) (files w)\<rparr>)))"

text \<open>What reading the open file \<open>src\<close> to its end gives.\<close>

definition read_all :: "string \<Rightarrow> world \<Rightarrow> error + string" where
  "read_all src w =
     (case map_of (files w) src of
        Some (File c) \<Rightarrow> Inr c
      | Some Directory \<Rightarrow> Inl ErrIsDir
      | None \<Rightarrow> Inl ErrNotExist)"

text \<open>\<open>io.Copy(dst, src)\<close> between two open files, stopped after \<open>k\<close> bytes when
  \<open>limit = Some k\<close>.\<close>

definition io_Copy :: "string \<Rightarrow> string \<Rightarrow> nat option \<Rightarrow> world \<Rightarrow> error option \<times> world" where
  "io_Copy dst src limit w =
     (case read_all src w of
        Inl e \<Rightarrow> (Some e, w)
      | Inr c \<Rightarrow>
          (None, w\<lparr>files := AList.update dst
                     (File (case limit of None \<Rightarrow> c | Some k \<Rightarrow> take k c)) (files w)\<rparr>))"

text \<open>\<open>os.ReadDir\<close>: name and \<open>IsDir\<close> of every entry, sorted by name.\<close>

definition os_ReadDir :: "string \<Rightarrow> world \<Rightarrow> error + (string \<times> bool) list" where
  "os_ReadDir name w =
     (if name = [] then Inl ErrNotExist
      else
        let d = filepath_Clean name in
        case map_of (files w) d of
          None \<Rightarrow> Inl ErrNotExist
        | Some (File _) \<Rightarrow> Inl ErrNotDir
        | Some Directory \<Rightarrow>
            Inr (map (\<lambda>n. (n, map_of (files w) (filepath_Join [d, n]) = Some Directory))
                   (sort (remdups (map filepath_Base
                      (filter (entry_of d) (map fst (files w))))))))"

text \<open>\<open>os.Remove\<close>: removes a file or an empty directory.\<close>

definition os_Remove :: "string \<Rightarrow> world \<Rightarrow> error option \<times> world" where
  "os_Remove name w =
     (if name = [] then (Some ErrNotExist, w)
      else
        let p = filepath_Clean name in
        case map_of (files w) p of
          None \<Rightarrow> (Some ErrNotExist, w)
        | Some (File _) \<Rightarrow> (None, w\<lparr>files := AList.delete p (files w)\<rparr>)
        | Some Directory \<Rightarrow>
            if filter (entry_of p) (map fst (files w)) = []
            then (None, w\<lparr>files := AList.delete p (files w)\<rparr>)
            else (Some ErrNotEmpty, w))"


subsection \<open>The S3 service and its client\<close>

text \<open>The keys of a bucket that start with \<open>pfx\<close>, in the order of the service.\<close>

definition s3_keys :: "string \<Rightarrow> string \<Rightarrow> world \<Rightarrow> string list" where
  "s3_keys bkt pfx w =
     sort (map (\<lambda>((b, k), c). k) (filter (\<lambda>((b, k), c). b = bkt \<and> prefix pfx k) (s3_objects w)))"

function pages_of :: "nat \<Rightarrow> 'a list \<Rightarrow> 'a list list" where
  "pages_of n xs =
     (if n = 0 \<or> length xs \<le> n then [xs] else take n xs # pages_of n (drop n xs))"
  by pat_completeness auto
termination
  by (relation "measure (\<lambda>(n, xs). length xs)") auto

declare pages_of.simps [simp del]

text \<open>
  \<open>ListObjectsV2PagesWithContext\<close> hands every page of the listing to \<open>fn\<close>, with
  whether it is the last one, until \<open>fn\<close> returns false. \<open>acc\<close> is what \<open>fn\<close>
  changes (the variable its closure captures). The key of a listed object is a pointer,
  \<open>None\<close> when nil.
\<close>

fun each_page ::
  "(string option list \<Rightarrow> bool \<Rightarrow> 'a \<Rightarrow> bool \<times> 'a) \<Rightarrow> string option list list \<Rightarrow> 'a \<Rightarrow> 'a" where
  "each_page fn [] acc = acc"
| "each_page fn (pg # pgs) acc =
     (case fn pg (pgs = []) acc of
        (True, acc') \<Rightarrow> each_page fn pgs acc'
      | (False, acc') \<Rightarrow> acc')"

definition s3_ListObjectsV2Pages ::
  "Context \<Rightarrow> string \<Rightarrow> string \<Rightarrow> (string option list \<Rightarrow> bool \<Rightarrow> 'a \<Rightarrow> bool \<times> 'a) \<Rightarrow> 'a \<Rightarrow>
     world \<Rightarrow> error option \<times> 'a" where
  "s3_ListObjectsV2Pages ctx bkt pfx fn acc w =
     (case s3_fault w of
        Some e \<Rightarrow> (Some e, acc)
      | None \<Rightarrow>
          (None, each_page fn (pages_of (s3_page_size w) (map Some (s3_keys bkt pfx w))) acc))"

text \<open>\<open>uploader.UploadWithContext\<close>: reads the body to its end and stores it under the key.\<close>

definition s3manager_Upload ::
  "Context \<Rightarrow> string \<Rightarrow> string \<Rightarrow> string \<Rightarrow> world \<Rightarrow> error option \<times> world" where
  "s3manager_Upload ctx bkt key body w =
     (case s3_fault w of
        Some e \<Rightarrow> (Some e, w)
      | None \<Rightarrow>
          (case read_all body w of
             Inl e \<Rightarrow> (Some e, w)
           | Inr c \<Rightarrow> (None, w\<lparr>s3_objects := AList.update (bkt, key) c (s3_objects w)\<rparr>)))"

text \<open>
  \<open>DeleteObjectWithContext\<close>: the S3 API answers a delete request with success whether
  or not the key holds an object.
\<close>

definition s3_DeleteObject :: "Context \<Rightarrow> string \<Rightarrow> string \<Rightarrow> world \<Rightarrow> error option \<times> world" where
  "s3_DeleteObject ctx bkt key w =
     (case s3_fault w of
        Some e \<Rightarrow> (Some e, w)
      | None \<Rightarrow> (None, w\<lparr>s3_objects := AList.delete (bkt, key) (s3_objects w)\<rparr>))"

subsection \<open>Google Cloud Storage and its client\<close>

text \<open>
  What the iterator of \<open>Bucket(b).Objects(ctx, query)\<close> returns from \<open>Next\<close>, call
  after call, before \<open>iterator.Done\<close>: the names of the objects that start with the
  prefix, or the error of the request.
\<close>

definition gcs_Objects :: "Context \<Rightarrow> string \<Rightarrow> string \<Rightarrow> world \<Rightarrow> (error + string) list" where
  "gcs_Objects ctx bkt pfx w =
     (case gcs_fault w of
        Some e \<Rightarrow> [Inl e]
      | None \<Rightarrow>
          map Inr (sort (map (\<lambda>((b, k), c). k)
            (filter (\<lambda>((b, k), c). b = bkt \<and> prefix pfx k) (gcs_objects w)))))"

text \<open>\<open>writer.Close()\<close>: the object is created with what was written to the writer.\<close>

definition gcs_Writer_Close :: "string \<Rightarrow> string \<Rightarrow> string \<Rightarrow> world \<Rightarrow> error option \<times> world" where
  "gcs_Writer_Close bkt name written w =
     (case gcs_fault w of
        Some e \<Rightarrow> (Some e, w)
      | None \<Rightarrow> (None, w\<lparr>gcs_objects := AList.update (bkt, name) written (gcs_objects w)\<rparr>))"

text \<open>\<open>obj.Delete(ctx)\<close>: \<open>ErrObjectNotExist\<close> when there is no such object.\<close>

definition gcs_Object_Delete :: "Context \<Rightarrow> string \<Rightarrow> string \<Rightarrow> world \<Rightarrow> error option \<times> world" where
  "gcs_Object_Delete ctx bkt name w =
     (case gcs_fault w of
        Some e \<Rightarrow> (Some e, w)
      | None \<Rightarrow>
          (case map_of (gcs_objects w) (bkt, name) of
             None \<Rightarrow> (Some ErrObjectNotExist, w)
           | Some _ \<Rightarrow> (None, w\<lparr>gcs_objects := AList.delete (bkt, name) (gcs_objects w)\<rparr>)))"

section \<open>storage.go: the storage interface\<close>

record Storage =
  Upload :: "Context \<Rightarrow> string \<Rightarrow> string \<Rightarrow> world \<Rightarrow> error option \<times> world"
  List :: "Context \<Rightarrow> world \<Rightarrow> (error + string list) \<times> world"
  Delete :: "Context \<Rightarrow> string \<Rightarrow> world \<Rightarrow> error option \<times> world"
  Type :: string

section \<open>local.go: the local file system backend\<close>

record LocalStorage =
  basePath :: string

definition LocalStorage_Upload ::
  "LocalStorage \<Rightarrow> Context \<Rightarrow> string \<Rightarrow> string \<Rightarrow> world \<Rightarrow> error option \<times> world" where
  "LocalStorage_Upload s ctx sourcePath backupName w =
     (let destPath = filepath_Join [basePath s, backupName] in
      case os_Open sourcePath w of
        Inl err \<Rightarrow> (Some (Errorf ''failed to open source file'' err), w)
      | Inr src \<Rightarrow>
          (case os_Create destPath w of
             (Inl err, w1) \<Rightarrow> (Some (Errorf ''failed to create destination file'' err), w1)
           | (Inr dst, w1) \<Rightarrow>
               (case upload_select w1 of
                  Some (e, k) \<Rightarrow> (Some e, snd (io_Copy dst src (Some k) w1))
                | None \<Rightarrow>
                    (case io_Copy dst src None w1 of
                       (Some err, w2) \<Rightarrow> (Some (Errorf ''failed to copy file'' err), w2)
                     | (None, w2) \<Rightarrow> (None, w2)))))"

text \<open>The loop of \<open>List\<close> over the directory entries, each a name and \<open>IsDir()\<close>.\<close>

fun local_entries_loop :: "(string \<times> bool) list \<Rightarrow> string list \<Rightarrow> string list" where
  "local_entries_loop [] backups = backups"
| "local_entries_loop ((name, isDir) # entries) backups =
     local_entries_loop entries
       (if \<not> isDir \<and> filepath_Ext name = ''.rdb'' then backups @ [name] else backups)"

definition LocalStorage_List :: "LocalStorage \<Rightarrow> Context \<Rightarrow> world \<Rightarrow> (error + string list) \<times> world" where
  "LocalStorage_List s ctx w =
     (case os_ReadDir (basePath s) w of
        Inl err \<Rightarrow> (Inl (Errorf ''failed to read backup directory'' err), w)
      | Inr entries \<Rightarrow> (Inr (sort_Strings (local_entries_loop entries [])), w))"

definition LocalStorage_Delete ::
  "LocalStorage \<Rightarrow> Context \<Rightarrow> string \<Rightarrow> world \<Rightarrow> error option \<times> world" where
  "LocalStorage_Delete s ctx backupName w =
     (let filePath = filepath_Join [basePath s, backupName] in
      case os_Remove filePath w of
        (Some err, w1) \<Rightarrow> (Some (Errorf ''failed to delete backup'' err), w1)
      | (None, w1) \<Rightarrow> (None, w1))"

definition LocalStorage_Type :: "LocalStorage \<Rightarrow> string" where
  "LocalStorage_Type s = ''local''"

definition LocalStorage_Storage :: "LocalStorage \<Rightarrow> Storage" where
  "LocalStorage_Storage s =
     \<lparr>Upload = LocalStorage_Upload s, List = LocalStorage_List s,
      Delete = LocalStorage_Delete s, Type = LocalStorage_Type s\<rparr>"

section \<open>s3.go: the S3-compatible backend\<close>

record S3Storage =
  bucket :: string
  backupPrefix :: string

definition getKey :: "S3Storage \<Rightarrow> string \<Rightarrow> string" where
  "getKey s backupName =
     (if backupPrefix s = [] then backupName
      else strings_TrimSuffix (backupPrefix s) ''/'' @ ''/'' @ backupName)"

definition S3Storage_Upload ::
  "S3Storage \<Rightarrow> Context \<Rightarrow> string \<Rightarrow> string \<Rightarrow> world \<Rightarrow> error option \<times> world" where
  "S3Storage_Upload s ctx sourcePath backupName w =
     (case os_Open sourcePath w of
        Inl err \<Rightarrow> (Some (Errorf ''failed to open source file'' err), w)
      | Inr file \<Rightarrow>
          (let key = getKey s backupName in
           case s3manager_Upload ctx (bucket s) key file w of
             (Some err, w1) \<Rightarrow> (Some (Errorf ''failed to upload to S3'' err), w1)
           | (None, w1) \<Rightarrow> (None, w1)))"

text \<open>The loop of the page callback of \<open>List\<close> over \<open>page.Contents\<close>.\<close>

fun s3_contents_loop :: "string option list \<Rightarrow> string list \<Rightarrow> string list" where
  "s3_contents_loop [] backups = backups"
| "s3_contents_loop (obj_Key # contents) backups =
     s3_contents_loop contents
       (case obj_Key of
          None \<Rightarrow> backups
        | Some key \<Rightarrow>
            (let name = filepath_Base key in
             if strings_HasSuffix name ''.rdb'' then backups @ [name] else backups))"

definition s3_list_callback :: "string option list \<Rightarrow> bool \<Rightarrow> string list \<Rightarrow> bool \<times> string list" where
  "s3_list_callback page lastPage backups = (True, s3_contents_loop page backups)"

definition S3Storage_List :: "S3Storage \<Rightarrow> Context \<Rightarrow> world \<Rightarrow> (error + string list) \<times> world" where
  "S3Storage_List s ctx w =
     (let prefix0 = backupPrefix s;
          pfx = (if prefix0 \<noteq> [] \<and> \<not> strings_HasSuffix prefix0 ''/'' then prefix0 @ ''/'' else prefix0)
      in case s3_ListObjectsV2Pages ctx (bucket s) pfx s3_list_callback [] w of
           (Some err, backups) \<Rightarrow> (Inl (Errorf ''failed to list S3 objects'' err), w)
         | (None, backups) \<Rightarrow> (Inr (sort_Strings backups), w))"

definition S3Storage_Delete ::
  "S3Storage \<Rightarrow> Context \<Rightarrow> string \<Rightarrow> world \<Rightarrow> error option \<times> world" where
  "S3Storage_Delete s ctx backupName w =
     (let key = getKey s backupName in
      case s3_DeleteObject ctx (bucket s) key w of
        (Some err, w1) \<Rightarrow> (Some (Errorf ''failed to delete S3 object'' err), w1)
      | (None, w1) \<Rightarrow> (None, w1))"

definition S3Storage_Type :: "S3Storage \<Rightarrow> string" where
  "S3Storage_Type s = ''s3''"

definition S3Storage_Storage :: "S3Storage \<Rightarrow> Storage" where
  "S3Storage_Storage s =
     \<lparr>Upload = S3Storage_Upload s, List = S3Storage_List s,
      Delete = S3Storage_Delete s, Type = S3Storage_Type s\<rparr>"

section \<open>gcp.go: the Google Cloud Storage backend\<close>

record GCPStorage =
  gcp_bucket :: string
  gcp_backupPrefix :: string

definition getObjectName :: "GCPStorage \<Rightarrow> string \<Rightarrow> string" where
  "getObjectName s backupName =
     (if gcp_backupPrefix s = [] then backupName
      else strings_TrimSuffix (gcp_backupPrefix s) ''/'' @ ''/'' @ backupName)"

text \<open>
  \<open>Upload\<close>: \<open>io.Copy\<close> reads the file into the writer; the object is created by
  \<open>writer.Close()\<close>. When the copy fails, the deferred \<open>writer.Close()\<close> still runs,
  on a writer nothing was written to.
\<close>

definition GCPStorage_Upload ::
  "GCPStorage \<Rightarrow> Context \<Rightarrow> string \<Rightarrow> string \<Rightarrow> world \<Rightarrow> error option \<times> world" where
  "GCPStorage_Upload s ctx sourcePath backupName w =
     (case os_Open sourcePath w of
        Inl err \<Rightarrow> (Some (Errorf ''failed to open source file'' err), w)
      | Inr file \<Rightarrow>
          (let objectName = getObjectName s backupName in
           case read_all file w of
             Inl err \<Rightarrow>
               (Some (Errorf ''failed to upload to GCS'' err),
                snd (gcs_Writer_Close (gcp_bucket s) objectName [] w))
           | Inr written \<Rightarrow> gcs_Writer_Close (gcp_bucket s) objectName written w))"

text \<open>The loop of \<open>List\<close> over the iterator; its end is \<open>iterator.Done\<close>.\<close>

fun gcp_iterator_loop :: "(error + string) list \<Rightarrow> string list \<Rightarrow> error + string list" where
  "gcp_iterator_loop [] backups = Inr backups"
| "gcp_iterator_loop (Inl err # it) backups = Inl (Errorf ''failed to list GCS objects'' err)"
| "gcp_iterator_loop (Inr attrs_Name # it) backups =
     gcp_iterator_loop it
       (let name = filepath_Base attrs_Name in
        if strings_HasSuffix name ''.rdb'' then backups @ [name] else backups)"

definition GCPStorage_List :: "GCPStorage \<Rightarrow> Context \<Rightarrow> world \<Rightarrow> (error + string list) \<times> world" where
  "GCPStorage_List s ctx w =
     (let prefix0 = gcp_backupPrefix s;
          pfx = (if prefix0 \<noteq> [] \<and> \<not> strings_HasSuffix prefix0 ''/'' then prefix0 @ ''/'' else prefix0)
      in case gcp_iterator_loop (gcs_Objects ctx (gcp_bucket s) pfx w) [] of
           Inl err \<Rightarrow> (Inl err, w)
         | Inr backups \<Rightarrow> (Inr (sort_Strings backups), w))"

definition GCPStorage_Delete ::
  "GCPStorage \<Rightarrow> Context \<Rightarrow> string \<Rightarrow> world \<Rightarrow> error option \<times> world" where
  "GCPStorage_Delete s ctx backupName w =
     (let objectName = getObjectName s backupName in
      case gcs_Object_Delete ctx (gcp_bucket s) objectName w of
        (Some err, w1) \<Rightarrow> (Some (Errorf ''failed to delete GCS object'' err), w1)
      | (None, w1) \<Rightarrow> (None, w1))"

definition GCPStorage_Type :: "GCPStorage \<Rightarrow> string" where
  "GCPStorage_Type s = ''gcp''"

definition GCPStorage_Storage :: "GCPStorage \<Rightarrow> Storage" where
  "GCPStorage_Storage s =
     \<lparr>Upload = GCPStorage_Upload s, List = GCPStorage_List s,
      Delete = GCPStorage_Delete s, Type = GCPStorage_Type s\<rparr>"


section \<open>backup.go: the backup manager\<close>

text \<open>The fields of \<open>config.Config\<close> the manager reads after its construction.\<close>

record Config =
  RetentionCount :: int
  RedisDataPath :: string

text \<open>The manager; its Redis client is the connection to the server of the world.\<close>

record Manager =
  cfg :: Config
  storage :: Storage

definition triggerBGSAVE :: "Manager \<Rightarrow> Context \<Rightarrow> world \<Rightarrow> (error option \<times> world) go" where
  "triggerBGSAVE m ctx w =
     (let w0 = log_Println ''Triggering BGSAVE...'' w in
      case redis_Info ctx ''persistence'' w0 of
        (Inl err, w1) \<Rightarrow> Return (Some (Errorf ''failed to get persistence info'' err), w1)
      | (Inr info, w1) \<Rightarrow>
          (case containsBGSAVEInProgress info of
             Panic \<Rightarrow> Panic
           | Return inProgress \<Rightarrow>
               if inProgress
               then Return (None, log_Println ''BGSAVE already in progress, waiting...'' w1)
               else
                 (case redis_BgSave ctx w1 of
                    (Some err, w2) \<Rightarrow> Return (Some (Errorf ''BGSAVE command failed'' err), w2)
                  | (None, w2) \<Rightarrow> Return (None, w2))))"

text \<open>The \<open>select\<close> of the wait loop: the case taken and, for \<open>ctx.Done()\<close>, \<open>ctx.Err()\<close>.\<close>

definition select_wait :: "Context \<Rightarrow> world \<Rightarrow> error option \<times> world" where
  "select_wait ctx w = (wait_select w (selects w), w\<lparr>selects := Suc (selects w)\<rparr>)"

text \<open>The loop of \<open>waitForBGSAVE\<close>. It has no bound of its own: \<open>None\<close> is a loop that
  never ends.\<close>

partial_function (option) waitForBGSAVE_loop ::
  "Manager \<Rightarrow> Context \<Rightarrow> world \<Rightarrow> (error option \<times> world) go option" where
  "waitForBGSAVE_loop m ctx w =
     (case select_wait ctx w of
        (Some ctx_Err, w1) \<Rightarrow> Some (Return (Some ctx_Err, w1))
      | (None, w1) \<Rightarrow>
          (case redis_Info ctx ''persistence'' w1 of
             (Inl err, w2) \<Rightarrow>
               Some (Return (Some (Errorf ''failed to get persistence info'' err), w2))
           | (Inr info, w2) \<Rightarrow>
               (case containsBGSAVEInProgress info of
                  Panic \<Rightarrow> Some Panic
                | Return inProgress \<Rightarrow>
                    if \<not> inProgress
                    then Some (Return (None, log_Println ''BGSAVE completed'' w2))
                    else waitForBGSAVE_loop m ctx w2)))"

definition waitForBGSAVE :: "Manager \<Rightarrow> Context \<Rightarrow> world \<Rightarrow> (error option \<times> world) go option" where
  "waitForBGSAVE m ctx w =
     waitForBGSAVE_loop m ctx (log_Println ''Waiting for BGSAVE to complete...'' w)"

definition generateBackupName :: "Manager \<Rightarrow> world \<Rightarrow> string" where
  "generateBackupName m w =
     (let timestamp = Format (time_Now_UTC w)
      in ''redis-backup_'' @ timestamp @ ''.rdb'')"

text \<open>
  The loop of \<open>applyRetention\<close>:
  \<^verbatim>\<open>for i := 0; i < toDelete; i++ { ... m.storage.Delete(ctx, backups[i]) ... }\<close>
  \<open>backups[i]\<close> panics when \<open>i\<close> is out of range.
\<close>

function applyRetention_loop ::
  "Manager \<Rightarrow> Context \<Rightarrow> string list \<Rightarrow> int \<Rightarrow> int \<Rightarrow> world \<Rightarrow> world go" where
  "applyRetention_loop m ctx backups toDelete i w =
     (if i < toDelete then
        (if 0 \<le> i \<and> i < int (length backups) then
           (let name = backups ! nat i;
                w1 = log_Printf ''Deleting old backup: %s'' [ArgS name] w
            in case Delete (storage m) ctx name w1 of
                 (Some err, w2) \<Rightarrow>
                   applyRetention_loop m ctx backups toDelete (i + 1)
                     (log_Printf ''Warning: failed to delete %s: %v'' [ArgS name, ArgV err] w2)
               | (None, w2) \<Rightarrow> applyRetention_loop m ctx backups toDelete (i + 1) w2)
         else Panic)
      else Return w)"
  by pat_completeness auto
termination
  by (relation "measure (\<lambda>(m, ctx, backups, toDelete, i, w). nat (toDelete - i))") auto

declare applyRetention_loop.simps [simp del]

text \<open>
  \<open>RetentionCount\<close> and \<open>len(backups)\<close> are Go ints. \<open>Run\<close> calls \<open>applyRetention\<close>
  with a positive \<open>RetentionCount\<close> only, where the subtraction cannot wrap around.
\<close>

definition applyRetention :: "Manager \<Rightarrow> Context \<Rightarrow> world \<Rightarrow> (error option \<times> world) go" where
  "applyRetention m ctx w =
     (let w0 = log_Printf ''Applying retention policy (keeping %d backups)...''
                 [ArgD (RetentionCount (cfg m))] w
      in case List (storage m) ctx w0 of
           (Inl err, w1) \<Rightarrow> Return (Some (Errorf ''failed to list backups'' err), w1)
         | (Inr backups, w1) \<Rightarrow>
             if int (length backups) \<le> RetentionCount (cfg m)
             then Return (None, log_Printf ''Current backup count (%d) within retention limit''
                                  [ArgD (int (length backups))] w1)
             else
               (let toDelete = int (length backups) - RetentionCount (cfg m)
                in case applyRetention_loop m ctx backups toDelete 0 w1 of
                     Panic \<Rightarrow> Panic
                   | Return w2 \<Rightarrow>
                       Return (None, log_Printf ''Retention policy applied, deleted %d old backup(s)''
                                       [ArgD toDelete] w2)))"

text \<open>Step 5 of \<open>Run\<close>: the retention policy, whose failure is logged and not returned.\<close>

definition Run_retention :: "Manager \<Rightarrow> Context \<Rightarrow> world \<Rightarrow> world go" where
  "Run_retention m ctx w =
     (if RetentionCount (cfg m) > 0 then
        (case applyRetention m ctx w of
           Panic \<Rightarrow> Panic
         | Return (Some err, w1) \<Rightarrow>
             Return (log_Printf ''Warning: failed to apply retention policy: %v'' [ArgV err] w1)
         | Return (None, w1) \<Rightarrow> Return w1)
      else Return w)"

definition Run :: "Manager \<Rightarrow> Context \<Rightarrow> world \<Rightarrow> (error option \<times> world) go option" where
  "Run m ctx w =
     (let w0 = log_Println ''Starting backup process...'' w in
      case triggerBGSAVE m ctx w0 of
        Panic \<Rightarrow> Some Panic
      | Return (Some err, w1) \<Rightarrow> Some (Return (Some (Errorf ''failed to trigger BGSAVE'' err), w1))
      | Return (None, w1) \<Rightarrow>
          (case waitForBGSAVE m ctx w1 of
             None \<Rightarrow> None
           | Some Panic \<Rightarrow> Some Panic
           | Some (Return (Some err, w2)) \<Rightarrow>
               Some (Return (Some (Errorf ''failed waiting for BGSAVE'' err), w2))
           | Some (Return (None, w2)) \<Rightarrow>
               (let backupName = generateBackupName m w2;
                    rdbPath = filepath_Join [RedisDataPath (cfg m), ''dump.rdb'']
                in case Upload (storage m) ctx rdbPath backupName w2 of
                     (Some err, w3) \<Rightarrow>
                       Some (Return (Some (Errorf ''failed to upload backup'' err), w3))
                   | (None, w3) \<Rightarrow>
                       (let w4 = log_Printf ''Backup completed successfully: %s (storage: %s)''
                                   [ArgS backupName, ArgS (Type (storage m))] w3
                        in case Run_retention m ctx w4 of
                             Panic \<Rightarrow> Some Panic
                           | Return w5 \<Rightarrow> Some (Return (None, w5))))))"


section \<open>Notions the claims are stated with\<close>

text \<open>
  One pass of the retention loop on one name: the line of the log, one call of
  \<open>Delete\<close> on that name, and the warning when the call returns an error. The world
  goes on from the one the call returned, whether it failed or not.
\<close>

definition attempt_delete :: "Manager \<Rightarrow> Context \<Rightarrow> string \<Rightarrow> world \<Rightarrow> world" where
  "attempt_delete m ctx name w =
     (case Delete (storage m) ctx name (log_Printf ''Deleting old backup: %s'' [ArgS name] w) of
        (Some err, w2) \<Rightarrow> log_Printf ''Warning: failed to delete %s: %v'' [ArgS name, ArgV err] w2
      | (None, w2) \<Rightarrow> w2)"

text \<open>The deletions of a list of names, attempted one after the other in the order of the list.\<close>

definition attempt_deletes :: "Manager \<Rightarrow> Context \<Rightarrow> string list \<Rightarrow> world \<Rightarrow> world" where
  "attempt_deletes m ctx names w = fold (attempt_delete m ctx) names w"


subsection \<open>Instants on the time line\<close>

text \<open>
  The claims about names speak of instants that are some seconds apart. An instant is a
  \<open>Time\<close> whose fields are a date of the proleptic Gregorian calendar and a time of the
  day; \<open>Unix\<close> is its number of seconds since 1970-01-01 00:00:00 UTC, as \<open>t.Unix()\<close>
  of package time.
\<close>

definition leap_year :: "int \<Rightarrow> bool" where
  "leap_year y = (y mod 4 = 0 \<and> (y mod 100 \<noteq> 0 \<or> y mod 400 = 0))"

definition days_in_month :: "int \<Rightarrow> nat \<Rightarrow> nat" where
  "days_in_month y m =
     (if m = 2 then (if leap_year y then 29 else 28)
      else if m = 4 \<or> m = 6 \<or> m = 9 \<or> m = 11 then 30 else 31)"

definition valid_Time :: "Time \<Rightarrow> bool" where
  "valid_Time t =
     (1 \<le> Month t \<and> Month t \<le> 12 \<and> 1 \<le> Day t \<and> Day t \<le> days_in_month (Year t) (Month t) \<and>
      Hour t < 24 \<and> Minute t < 60 \<and> Second t < 60)"

text \<open>The days from 0000-01-01 to the first day of year \<open>y\<close>.\<close>

definition days_before_year :: "int \<Rightarrow> int" where
  "days_before_year y = 365 * y + (y + 3) div 4 - (y + 99) div 100 + (y + 399) div 400"

text \<open>The days from the first day of the year to the first day of month \<open>m\<close>.\<close>

definition days_before_month :: "int \<Rightarrow> nat \<Rightarrow> nat" where
  "days_before_month y m = sum_list (map (days_in_month y) [1..<m])"

definition Unix :: "Time \<Rightarrow> int" where
  "Unix t =
     (days_before_year (Year t) + int (days_before_month (Year t) (Month t)) + int (Day t) - 1
        - 719528) * 86400
      + int (Hour t) * 3600 + int (Minute t) * 60 + int (Second t)"

section \<open>Concrete worlds and managers\<close>

text \<open>
  A world to run the program in: a Redis server that reports a snapshot in progress to
  the first command it receives and none afterwards, a data directory with a dump, and
  a backup directory with five backups.
\<close>

definition demo_world :: world where
  "demo_world =
     \<lparr>logs = [],
      clock = \<lparr>Year = 2024, Month = 1, Day = 6, Hour = 0, Minute = 0, Second = 0\<rparr>,
      redis_cmds = [],
      redis_info = (\<lambda>k. Inr (if k = 0 then ''rdb_changes:7 rdb_bgsave_in_progress:1 rdb_x:0''
                              else ''rdb_changes:0 rdb_bgsave_in_progress:0 rdb_x:0'')),
      redis_bgsave = (\<lambda>k. None),
      wait_select = (\<lambda>k. None),
      selects = 0,
      files = [(''/'', Directory), (''/data'', Directory), (''/data/dump.rdb'', File ''REDIS0011''),
               (''/backups'', Directory),
               (''/backups/b_2024-01-01_00-00-00.rdb'', File ''1''),
               (''/backups/b_2024-01-02_00-00-00.rdb'', File ''2''),
               (''/backups/b_2024-01-03_00-00-00.rdb'', File ''3''),
               (''/backups/b_2024-01-04_00-00-00.rdb'', File ''4''),
               (''/backups/b_2024-01-05_00-00-00.rdb'', File ''5'')],
      upload_select = None,
      s3_objects = [((''bkt'', ''redis-backups/b_2024-01-01_00-00-00.rdb''), ''1'')],
      s3_fault = None,
      s3_page_size = 1000,
      gcs_objects = [((''bkt'', ''redis-backups/b_2024-01-01_00-00-00.rdb''), ''1'')],
      gcs_fault = None\<rparr>"

text \<open>
  A backend that lists the five backups of the end-to-end scenario of the specification,
  refuses to delete the oldest one and deletes any other from the backup directory.
\<close>

definition demo_names :: "string list" where
  "demo_names =
     [''b_2024-01-01_00-00-00.rdb'', ''b_2024-01-02_00-00-00.rdb'', ''b_2024-01-03_00-00-00.rdb'',
      ''b_2024-01-04_00-00-00.rdb'', ''b_2024-01-05_00-00-00.rdb'']"

definition demo_storage :: Storage where
  "demo_storage =
     \<lparr>Upload = (\<lambda>ctx sourcePath backupName w. (None, w)),
      List = (\<lambda>ctx w. (Inr demo_names, w)),
      Delete = (\<lambda>ctx backupName w.
         if backupName = ''b_2024-01-01_00-00-00.rdb'' then (Some ErrNotExist, w)
         else (None, w\<lparr>files := AList.delete (''/backups/'' @ backupName) (files w)\<rparr>)),
      Type = ''demo''\<rparr>"

definition demo_manager :: "int \<Rightarrow> Manager" where
  "demo_manager r =
     \<lparr>cfg = \<lparr>RetentionCount = r, RedisDataPath = ''/data''\<rparr>, storage = demo_storage\<rparr>"

text \<open>The worlds of a cycle of \<open>demo_manager r\<close> in \<open>demo_world\<close>: after the trigger, and
  after the wait.\<close>

definition demo_triggered :: world where
  "demo_triggered =
     log_Println ''BGSAVE already in progress, waiting...''
       (snd (redis_Info Background ''persistence''
          (log_Println ''Triggering BGSAVE...''
             (log_Println ''Starting backup process...'' demo_world))))"

definition demo_waited :: world where
  "demo_waited =
     log_Println ''BGSAVE completed''
       (snd (redis_Info Background ''persistence''
          (snd (select_wait Background
             (log_Println ''Waiting for BGSAVE to complete...'' demo_triggered)))))"

text \<open>The same backend when its listing fails.\<close>

definition demo_manager_unlisted :: "int \<Rightarrow> Manager" where
  "demo_manager_unlisted r =
     \<lparr>cfg = \<lparr>RetentionCount = r, RedisDataPath = ''/data''\<rparr>,
      storage = demo_storage\<lparr>List := (\<lambda>ctx w. (Inl (ErrOther ''offline''), w))\<rparr>\<rparr>"

text \<open>Backends on the services of \<open>demo_world\<close>, with a prefix and without one.\<close>

definition demo_s3 :: S3Storage where
  "demo_s3 = \<lparr>bucket = ''bkt'', backupPrefix = ''redis-backups/''\<rparr>"

definition demo_s3_bare :: S3Storage where
  "demo_s3_bare = \<lparr>bucket = ''bkt'', backupPrefix = []\<rparr>"

definition demo_gcp :: GCPStorage where
  "demo_gcp = \<lparr>gcp_bucket = ''bkt'', gcp_backupPrefix = ''redis-backups''\<rparr>"

definition demo_gcp_bare :: GCPStorage where
  "demo_gcp_bare = \<lparr>gcp_bucket = ''bkt'', gcp_backupPrefix = []\<rparr>"

definition demo_local :: LocalStorage where
  "demo_local = \<lparr>basePath = ''/backups''\<rparr>"

text \<open>Managers on the three backends, in \<open>demo_world\<close>.\<close>

definition demo_local_manager :: "int \<Rightarrow> Manager" where
  "demo_local_manager r =
     \<lparr>cfg = \<lparr>RetentionCount = r, RedisDataPath = ''/data''\<rparr>,
      storage = LocalStorage_Storage demo_local\<rparr>"

text \<open>
  \<open>demo_world\<close> with a directory whose name ends in \<open>.rdb\<close> in the backup directory,
  and with objects nested below the prefix in both services.
\<close>

definition demo_world_nested :: world where
  "demo_world_nested =
     demo_world
       \<lparr>files := files demo_world @ [(''/backups/old.rdb'', Directory)],
        s3_objects := [((''bkt'', ''redis-backups/2024/01/b_2024-01-01_00-00-00.rdb''), ''1''),
                       ((''bkt'', ''redis-backups/notes.txt''), ''n'')],
        gcs_objects := [((''bkt'', ''redis-backups/2024/01/b_2024-01-01_00-00-00.rdb''), ''1''),
                        ((''bkt'', ''redis-backups/notes.txt''), ''n'')]\<rparr>"

text \<open>The last second of the year 9999 and the first one of the year 10000.\<close>

definition last_of_9999 :: Time where
  "last_of_9999 = \<lparr>Year = 9999, Month = 12, Day = 31, Hour = 23, Minute = 59, Second = 59\<rparr>"

definition first_of_10000 :: Time where
  "first_of_10000 = \<lparr>Year = 10000, Month = 1, Day = 1, Hour = 0, Minute = 0, Second = 0\<rparr>"

section \<open>The substring search is substring containment\<close>

lemma slice_in_range:
  "0 \<le> i \<Longrightarrow> i + int (length t) \<le> int (length s) \<Longrightarrow>
     slice s i (i + int (length t)) = Return (take (length t) (drop (nat i) s))"
  by (simp add: slice_def)

lemma findSubstring_from_char:
  "0 \<le> i \<Longrightarrow>
   findSubstring_from s substr i =
     Return (\<exists>j. nat i \<le> j \<and> j + length substr \<le> length s \<and>
                 take (length substr) (drop j s) = substr)"
proof (induction s substr i rule: findSubstring_from.induct)
  case (1 s substr i)
  show ?case
  proof (cases "i \<le> int (length s) - int (length substr)")
    case False
    then have "\<not> (\<exists>j. nat i \<le> j \<and> j + length substr \<le> length s \<and>
                 take (length substr) (drop j s) = substr)"
      using "1.prems" by auto
    with False show ?thesis
      by (subst findSubstring_from.simps) simp
  next
    case True
    then have sl: "slice s i (i + int (length substr)) =
        Return (take (length substr) (drop (nat i) s))"
      using "1.prems" by (intro slice_in_range) auto
    show ?thesis
    proof (cases "take (length substr) (drop (nat i) s) = substr")
      case hit: True
      have "nat i + length substr \<le> length s"
        using True "1.prems" by linarith
      with hit have "\<exists>j. nat i \<le> j \<and> j + length substr \<le> length s \<and>
                 take (length substr) (drop j s) = substr"
        by blast
      with True sl hit show ?thesis
        by (subst findSubstring_from.simps) simp
    next
      case miss: False
      have ih: "findSubstring_from s substr (i + 1) =
          Return (\<exists>j. nat (i + 1) \<le> j \<and> j + length substr \<le> length s \<and>
                 take (length substr) (drop j s) = substr)"
        using "1.IH"[OF True sl miss] "1.prems" by simp
      have "(\<exists>j. nat (i + 1) \<le> j \<and> j + length substr \<le> length s \<and>
                 take (length substr) (drop j s) = substr) =
            (\<exists>j. nat i \<le> j \<and> j + length substr \<le> length s \<and>
                 take (length substr) (drop j s) = substr)" (is "?L = ?R")
      proof
        assume ?L
        then obtain j where "nat (i + 1) \<le> j" "j + length substr \<le> length s"
          "take (length substr) (drop j s) = substr" by blast
        moreover from this have "nat i \<le> j" by linarith
        ultimately show ?R by blast
      next
        assume ?R
        then obtain j where j: "nat i \<le> j" "j + length substr \<le> length s"
          "take (length substr) (drop j s) = substr" by blast
        with miss have "j \<noteq> nat i" by auto
        with j(1) "1.prems" have "nat (i + 1) \<le> j" by linarith
        with j show ?L by blast
      qed
      with True sl miss ih show ?thesis
        by (subst findSubstring_from.simps) simp
    qed
  qed
qed

lemma sublist_take_drop:
  "sublist xs ys = (\<exists>j. j + length xs \<le> length ys \<and> take (length xs) (drop j ys) = xs)"
proof
  assume "sublist xs ys"
  then obtain ps ss where "ys = ps @ xs @ ss" by (auto simp: sublist_def)
  then have "length ps + length xs \<le> length ys \<and> take (length xs) (drop (length ps) ys) = xs"
    by simp
  then show "\<exists>j. j + length xs \<le> length ys \<and> take (length xs) (drop j ys) = xs" by blast
next
  assume "\<exists>j. j + length xs \<le> length ys \<and> take (length xs) (drop j ys) = xs"
  then obtain j where j: "j + length xs \<le> length ys" "take (length xs) (drop j ys) = xs" by blast
  have "ys = take j ys @ drop j ys"
    by simp
  also have "drop j ys = take (length xs) (drop j ys) @ drop (length xs) (drop j ys)"
    by (simp only: append_take_drop_id)
  finally have "ys = take j ys @ take (length xs) (drop j ys) @ drop (length xs) (drop j ys)" .
  with j(2) have "ys = take j ys @ xs @ drop (length xs) (drop j ys)" by simp
  then show "sublist xs ys" unfolding sublist_def by blast
qed

lemma containsString_sublist: "containsString s substr = Return (sublist substr s)"
proof (cases "length s \<ge> length substr")
  case True
  then show ?thesis
    by (simp add: containsString_def findSubstring_def findSubstring_from_char sublist_take_drop)
next
  case False
  then have "\<not> sublist substr s"
    by (auto simp: sublist_def)
  with False show ?thesis by (simp add: containsString_def)
qed

text \<open>
  C10. For every pair of strings, \<open>containsString\<close> returns (it never panics on a slice
  bound) and the value it returns is true exactly when \<open>substr\<close> occurs in \<open>s\<close> as a
  contiguous substring.
\<close>

theorem containsString_iff_substring:
  "containsString s substr = Return (\<exists>pre post. s = pre @ substr @ post)"
  using containsString_sublist [of s substr] by (simp add: sublist_def)

section \<open>The retention pass\<close>


lemma applyRetention_loop_done:
  "\<not> i < toDelete \<Longrightarrow> applyRetention_loop m ctx backups toDelete i w = Return w"
  by (subst applyRetention_loop.simps) simp

lemma applyRetention_loop_step:
  "i < toDelete \<Longrightarrow> 0 \<le> i \<Longrightarrow> i < int (length backups) \<Longrightarrow>
   applyRetention_loop m ctx backups toDelete i w =
     applyRetention_loop m ctx backups toDelete (i + 1) (attempt_delete m ctx (backups ! nat i) w)"
  by (subst applyRetention_loop.simps)
     (simp add: attempt_delete_def Let_def split: prod.splits option.splits)

lemma applyRetention_loop_panic:
  "i < toDelete \<Longrightarrow> \<not> (0 \<le> i \<and> i < int (length backups)) \<Longrightarrow>
   applyRetention_loop m ctx backups toDelete i w = Panic"
  by (subst applyRetention_loop.simps) auto

lemma applyRetention_loop_fold:
  "0 \<le> i \<Longrightarrow> toDelete \<le> int (length backups) \<Longrightarrow>
   applyRetention_loop m ctx backups toDelete i w =
     Return (attempt_deletes m ctx (drop (nat i) (take (nat toDelete) backups)) w)"
proof (induction "nat (toDelete - i)" arbitrary: i w)
  case 0
  then have "\<not> i < toDelete" by simp
  moreover from this 0 have "drop (nat i) (take (nat toDelete) backups) = []" by simp
  ultimately show ?case
    by (simp add: applyRetention_loop_done attempt_deletes_def)
next
  case (Suc k)
  then have lt: "i < toDelete" by linarith
  with Suc.prems have rng: "i < int (length backups)" by linarith
  have len: "nat i < length (take (nat toDelete) backups)"
    using lt Suc.prems by simp
  have split: "drop (nat i) (take (nat toDelete) backups) =
      backups ! nat i # drop (nat (i + 1)) (take (nat toDelete) backups)"
    using Cons_nth_drop_Suc [OF len] Suc.prems lt
    by (simp add: nat_add_distrib)
  have k: "k = nat (toDelete - (i + 1))"
    using Suc.hyps(2) by linarith
  have "applyRetention_loop m ctx backups toDelete (i + 1)
          (attempt_delete m ctx (backups ! nat i) w) =
        Return (attempt_deletes m ctx (drop (nat (i + 1)) (take (nat toDelete) backups))
          (attempt_delete m ctx (backups ! nat i) w))"
    using Suc.hyps(1) [OF k] Suc.prems by simp
  then show ?case
    using applyRetention_loop_step [OF lt Suc.prems(1) rng, of m ctx w] split
    by (simp add: attempt_deletes_def)
qed

lemma applyRetention_loop_take:
  "0 \<le> toDelete \<Longrightarrow> toDelete \<le> int (length backups) \<Longrightarrow>
   applyRetention_loop m ctx backups toDelete 0 w =
     Return (attempt_deletes m ctx (take (nat toDelete) backups) w)"
  using applyRetention_loop_fold [of 0 toDelete backups m ctx w] by simp

lemma Run_retention_zero:
  "RetentionCount (cfg m) \<le> 0 \<Longrightarrow> Run_retention m ctx w = Return w"
  by (simp add: Run_retention_def)

lemma applyRetention_list_error:
  "List (storage m) ctx (log_Printf ''Applying retention policy (keeping %d backups)...''
        [ArgD (RetentionCount (cfg m))] w) = (Inl err, w1) \<Longrightarrow>
   applyRetention m ctx w = Return (Some (Errorf ''failed to list backups'' err), w1)"
  by (simp add: applyRetention_def Let_def)

lemma applyRetention_within:
  "List (storage m) ctx (log_Printf ''Applying retention policy (keeping %d backups)...''
        [ArgD (RetentionCount (cfg m))] w) = (Inr backups, w1) \<Longrightarrow>
   int (length backups) \<le> RetentionCount (cfg m) \<Longrightarrow>
   applyRetention m ctx w =
     Return (None, log_Printf ''Current backup count (%d) within retention limit''
                     [ArgD (int (length backups))] w1)"
  by (simp add: applyRetention_def Let_def)

lemma applyRetention_beyond:
  "List (storage m) ctx (log_Printf ''Applying retention policy (keeping %d backups)...''
        [ArgD (RetentionCount (cfg m))] w) = (Inr backups, w1) \<Longrightarrow>
   0 \<le> RetentionCount (cfg m) \<Longrightarrow>
   RetentionCount (cfg m) < int (length backups) \<Longrightarrow>
   applyRetention m ctx w =
     Return (None, log_Printf ''Retention policy applied, deleted %d old backup(s)''
                     [ArgD (int (length backups) - RetentionCount (cfg m))]
                     (attempt_deletes m ctx
                        (take (length backups - nat (RetentionCount (cfg m))) backups) w1))"
proof -
  assume l: "List (storage m) ctx (log_Printf ''Applying retention policy (keeping %d backups)...''
        [ArgD (RetentionCount (cfg m))] w) = (Inr backups, w1)"
    and r0: "0 \<le> RetentionCount (cfg m)" and r1: "RetentionCount (cfg m) < int (length backups)"
  have n: "nat (int (length backups) - RetentionCount (cfg m)) =
      length backups - nat (RetentionCount (cfg m))"
    using r0 r1 by linarith
  have "applyRetention_loop m ctx backups (int (length backups) - RetentionCount (cfg m)) 0 w1 =
      Return (attempt_deletes m ctx
        (take (length backups - nat (RetentionCount (cfg m))) backups) w1)"
    using applyRetention_loop_take [of "int (length backups) - RetentionCount (cfg m)" backups m ctx w1]
      r0 r1 n by simp
  with l r1 show ?thesis
    by (simp add: applyRetention_def Let_def)
qed

lemma applyRetention_no_panic:
  "0 \<le> RetentionCount (cfg m) \<Longrightarrow> \<exists>r w'. applyRetention m ctx w = Return (r, w')"
proof -
  assume r0: "0 \<le> RetentionCount (cfg m)"
  let ?w0 = "log_Printf ''Applying retention policy (keeping %d backups)...''
        [ArgD (RetentionCount (cfg m))] w"
  obtain res w1 where l: "List (storage m) ctx ?w0 = (res, w1)"
    by (cases "List (storage m) ctx ?w0")
  show ?thesis
  proof (cases res)
    case (Inl err)
    with l show ?thesis using applyRetention_list_error by blast
  next
    case (Inr backups)
    show ?thesis
    proof (cases "int (length backups) \<le> RetentionCount (cfg m)")
      case True
      with l Inr show ?thesis using applyRetention_within by blast
    next
      case False
      with l Inr r0 show ?thesis using applyRetention_beyond [of m ctx w backups w1] by simp
    qed
  qed
qed

lemma Run_retention_returns:
  "\<exists>w'. Run_retention m ctx w = Return w'"
proof (cases "RetentionCount (cfg m) > 0")
  case False
  then show ?thesis by (simp add: Run_retention_def)
next
  case True
  then obtain r w' where "applyRetention m ctx w = Return (r, w')"
    using applyRetention_no_panic [of m ctx w] by auto
  with True show ?thesis
    by (cases r) (simp_all add: Run_retention_def)
qed

lemma sorted_take_le_drop:
  "sorted (xs :: 'a::linorder list) \<Longrightarrow> d \<in> set (take k xs) \<Longrightarrow> x \<in> set (drop k xs) \<Longrightarrow> d \<le> x"
proof -
  assume s: "sorted xs" and d: "d \<in> set (take k xs)" and x: "x \<in> set (drop k xs)"
  have "sorted (take k xs @ drop k xs)" using s by simp
  then show "d \<le> x" using d x unfolding sorted_append by blast
qed

text \<open>
  The retention step on any implementation of the storage interface: what it does is
  fixed by the listing it receives.
\<close>

lemma retention_deletes_prefix:
  assumes lst: "List (storage m) ctx
      (log_Printf ''Applying retention policy (keeping %d backups)...''
         [ArgD (RetentionCount (cfg m))] w) = (Inr backups, w1)"
  shows
    "(RetentionCount (cfg m) = 0 \<longrightarrow> Run_retention m ctx w = Return w) \<and>
     (0 < RetentionCount (cfg m) \<and> int (length backups) \<le> RetentionCount (cfg m) \<longrightarrow>
        Run_retention m ctx w =
          Return (log_Printf ''Current backup count (%d) within retention limit''
                    [ArgD (int (length backups))] w1)) \<and>
     (0 < RetentionCount (cfg m) \<and> RetentionCount (cfg m) < int (length backups) \<longrightarrow>
        (\<exists>deleted.
           Run_retention m ctx w =
             Return (log_Printf ''Retention policy applied, deleted %d old backup(s)''
                       [ArgD (int (length deleted))] (attempt_deletes m ctx deleted w1)) \<and>
           int (length deleted) = int (length backups) - RetentionCount (cfg m) \<and>
           deleted = take (length deleted) backups \<and>
           (sorted backups \<longrightarrow>
              sorted deleted \<and>
              (\<forall>d \<in> set deleted. \<forall>k \<in> set (drop (length deleted) backups). d \<le> k))))"
proof (intro conjI impI)
  assume "RetentionCount (cfg m) = 0"
  then show "Run_retention m ctx w = Return w"
    by (simp add: Run_retention_zero)
next
  assume a: "0 < RetentionCount (cfg m) \<and> int (length backups) \<le> RetentionCount (cfg m)"
  then show "Run_retention m ctx w =
          Return (log_Printf ''Current backup count (%d) within retention limit''
                    [ArgD (int (length backups))] w1)"
    using applyRetention_within [OF lst] by (simp add: Run_retention_def)
next
  assume a: "0 < RetentionCount (cfg m) \<and> RetentionCount (cfg m) < int (length backups)"
  define k where "k = length backups - nat (RetentionCount (cfg m))"
  define deleted where "deleted = take k backups"
  have len: "length deleted = k"
    by (simp add: deleted_def k_def)
  have cnt: "int (length deleted) = int (length backups) - RetentionCount (cfg m)"
    using a len unfolding k_def by linarith
  have run: "Run_retention m ctx w =
             Return (log_Printf ''Retention policy applied, deleted %d old backup(s)''
                       [ArgD (int (length deleted))] (attempt_deletes m ctx deleted w1))"
    using applyRetention_beyond [OF lst, of ] a cnt
    by (simp add: Run_retention_def deleted_def k_def)
  have pre: "deleted = take (length deleted) backups"
    using len by (simp add: deleted_def)
  have ord: "sorted deleted \<and>
              (\<forall>d \<in> set deleted. \<forall>x \<in> set (drop (length deleted) backups). d \<le> x)"
    if "sorted backups"
    using that len sorted_take_le_drop [of backups _ k] sorted_wrt_take [of "(\<le>)" backups k]
    by (auto simp: deleted_def)
  show "\<exists>deleted.
           Run_retention m ctx w =
             Return (log_Printf ''Retention policy applied, deleted %d old backup(s)''
                       [ArgD (int (length deleted))] (attempt_deletes m ctx deleted w1)) \<and>
           int (length deleted) = int (length backups) - RetentionCount (cfg m) \<and>
           deleted = take (length deleted) backups \<and>
           (sorted backups \<longrightarrow>
              sorted deleted \<and>
              (\<forall>d \<in> set deleted. \<forall>k \<in> set (drop (length deleted) backups). d \<le> k))"
    using run cnt pre ord by blast
qed


section \<open>One cycle\<close>

lemma triggerBGSAVE_in_progress:
  assumes "redis_info w (length (redis_cmds w)) = Inr info"
      and "sublist ''rdb_bgsave_in_progress:1'' info"
  shows "triggerBGSAVE m ctx w =
     Return (None, log_Println ''BGSAVE already in progress, waiting...''
       (snd (redis_Info ctx ''persistence'' (log_Println ''Triggering BGSAVE...'' w))))"
  using assms
  by (simp add: triggerBGSAVE_def Let_def redis_Info_def log_Println_def
      containsBGSAVEInProgress_def containsString_sublist)

text \<open>
  C3. When the reply to the status query holds the in-progress indicator
  \<open>rdb_bgsave_in_progress:1\<close>, \<open>triggerBGSAVE\<close> returns no error, and the only command
  the server has received from it is that query: no BGSAVE was sent.
\<close>

theorem triggerBGSAVE_idempotent:
  assumes "redis_info w (length (redis_cmds w)) = Inr info"
      and "info = pre @ ''rdb_bgsave_in_progress:1'' @ post"
  shows "\<exists>w'. triggerBGSAVE m ctx w = Return (None, w') \<and>
              redis_cmds w' = redis_cmds w @ [INFO ''persistence'']"
proof -
  have "sublist ''rdb_bgsave_in_progress:1'' info"
    using assms(2) unfolding sublist_def by blast
  from triggerBGSAVE_in_progress [OF assms(1) this, of m ctx]
  show ?thesis
    by (simp add: redis_Info_def log_Println_def)
qed

theorem triggerBGSAVE_idempotent_witness:
  "redis_info demo_world (length (redis_cmds demo_world)) =
     Inr (''rdb_changes:7 '' @ ''rdb_bgsave_in_progress:1'' @ '' rdb_x:0'') \<and>
   (\<exists>w'. triggerBGSAVE (demo_manager 3) Background demo_world = Return (None, w') \<and>
         redis_cmds w' = [INFO ''persistence''])"
proof -
  have h: "redis_info demo_world (length (redis_cmds demo_world)) =
     Inr (''rdb_changes:7 '' @ ''rdb_bgsave_in_progress:1'' @ '' rdb_x:0'')"
    by (simp add: demo_world_def)
  have c: "redis_cmds demo_world = []"
    by (simp add: demo_world_def)
  show ?thesis
    using h triggerBGSAVE_idempotent [OF h refl, of "demo_manager 3" Background] c
    by simp
qed

lemma Run_after_upload:
  assumes trig: "triggerBGSAVE m ctx (log_Println ''Starting backup process...'' w) = Return (None, w1)"
      and wait: "waitForBGSAVE m ctx w1 = Some (Return (None, w2))"
      and upl: "Upload (storage m) ctx (filepath_Join [RedisDataPath (cfg m), ''dump.rdb''])
                  (generateBackupName m w2) w2 = (None, w3)"
  shows "Run m ctx w =
     (case Run_retention m ctx
         (log_Printf ''Backup completed successfully: %s (storage: %s)''
            [ArgS (generateBackupName m w2), ArgS (Type (storage m))] w3) of
        Panic \<Rightarrow> Some Panic
      | Return w5 \<Rightarrow> Some (Return (None, w5)))"
  using assms by (simp add: Run_def Let_def)

lemma attempt_deletes_failed:
  assumes "Delete (storage m) ctx x
      (log_Printf ''Deleting old backup: %s'' [ArgS x] (attempt_deletes m ctx xs w)) = (Some err, wb)"
  shows "attempt_deletes m ctx (xs @ x # ys) w =
     attempt_deletes m ctx ys (log_Printf ''Warning: failed to delete %s: %v'' [ArgS x, ArgV err] wb)"
  using assms by (simp add: attempt_deletes_def attempt_delete_def)

text \<open>
  C2. In a cycle in which trigger, wait and upload succeed, \<open>Run\<close> returns and returns
  no error. When the listing of the retention pass fails, the error goes to the log
  only. When the pass has names to delete, the deletion of every one of them is
  attempted: after a call of \<open>Delete\<close> that returned an error, the pass writes a
  warning and goes on with the names that follow.
\<close>

theorem retention_failures_not_fatal:
  assumes trig: "triggerBGSAVE m ctx (log_Println ''Starting backup process...'' w) = Return (None, w1)"
      and wait: "waitForBGSAVE m ctx w1 = Some (Return (None, w2))"
      and upl: "Upload (storage m) ctx (filepath_Join [RedisDataPath (cfg m), ''dump.rdb''])
                  (generateBackupName m w2) w2 = (None, w3)"
      and w4: "w4 = log_Printf ''Applying retention policy (keeping %d backups)...''
                  [ArgD (RetentionCount (cfg m))]
                  (log_Printf ''Backup completed successfully: %s (storage: %s)''
                    [ArgS (generateBackupName m w2), ArgS (Type (storage m))] w3)"
  shows
    "(\<exists>w'. Run m ctx w = Some (Return (None, w'))) \<and>
     (\<forall>err w5. 0 < RetentionCount (cfg m) \<and> List (storage m) ctx w4 = (Inl err, w5) \<longrightarrow>
        Run m ctx w =
          Some (Return (None, log_Printf ''Warning: failed to apply retention policy: %v''
                                [ArgV (Errorf ''failed to list backups'' err)] w5))) \<and>
     (\<forall>backups w5 deleted.
        0 < RetentionCount (cfg m) \<and> RetentionCount (cfg m) < int (length backups) \<and>
        List (storage m) ctx w4 = (Inr backups, w5) \<and>
        deleted = take (length backups - nat (RetentionCount (cfg m))) backups \<longrightarrow>
        Run m ctx w =
          Some (Return (None, log_Printf ''Retention policy applied, deleted %d old backup(s)''
                                [ArgD (int (length deleted))] (attempt_deletes m ctx deleted w5))) \<and>
        (\<forall>xs x ys err wb.
           deleted = xs @ x # ys \<and>
           Delete (storage m) ctx x
             (log_Printf ''Deleting old backup: %s'' [ArgS x] (attempt_deletes m ctx xs w5)) =
               (Some err, wb) \<longrightarrow>
           attempt_deletes m ctx deleted w5 =
             attempt_deletes m ctx ys
               (log_Printf ''Warning: failed to delete %s: %v'' [ArgS x, ArgV err] wb)))"
proof (intro conjI allI impI)
  obtain w' where "Run_retention m ctx
         (log_Printf ''Backup completed successfully: %s (storage: %s)''
            [ArgS (generateBackupName m w2), ArgS (Type (storage m))] w3) = Return w'"
    using Run_retention_returns by blast
  then show "\<exists>w'. Run m ctx w = Some (Return (None, w'))"
    using Run_after_upload [OF trig wait upl] by simp
next
  fix err w5
  assume a: "0 < RetentionCount (cfg m) \<and> List (storage m) ctx w4 = (Inl err, w5)"
  then show "Run m ctx w =
          Some (Return (None, log_Printf ''Warning: failed to apply retention policy: %v''
                                [ArgV (Errorf ''failed to list backups'' err)] w5))"
    using Run_after_upload [OF trig wait upl] applyRetention_list_error [of m ctx _ err w5]
    by (simp add: Run_retention_def w4)
next
  fix backups w5 deleted
  assume a: "0 < RetentionCount (cfg m) \<and> RetentionCount (cfg m) < int (length backups) \<and>
        List (storage m) ctx w4 = (Inr backups, w5) \<and>
        deleted = take (length backups - nat (RetentionCount (cfg m))) backups"
  then have "int (length deleted) = int (length backups) - RetentionCount (cfg m)"
    by auto
  with a show "Run m ctx w =
          Some (Return (None, log_Printf ''Retention policy applied, deleted %d old backup(s)''
                                [ArgD (int (length deleted))] (attempt_deletes m ctx deleted w5)))"
    using Run_after_upload [OF trig wait upl] applyRetention_beyond [of m ctx _ backups w5]
    by (simp add: Run_retention_def w4)
next
  fix backups w5 deleted xs x ys err wb
  assume "deleted = xs @ x # ys \<and>
           Delete (storage m) ctx x
             (log_Printf ''Deleting old backup: %s'' [ArgS x] (attempt_deletes m ctx xs w5)) =
               (Some err, wb)"
  then show "attempt_deletes m ctx deleted w5 =
             attempt_deletes m ctx ys
               (log_Printf ''Warning: failed to delete %s: %v'' [ArgS x, ArgV err] wb)"
    using attempt_deletes_failed by simp
qed

lemma demo_trigger:
  "triggerBGSAVE m Background (log_Println ''Starting backup process...'' demo_world) =
     Return (None, demo_triggered)"
proof -
  have i: "redis_info (log_Println ''Starting backup process...'' demo_world)
      (length (redis_cmds (log_Println ''Starting backup process...'' demo_world))) =
      Inr (''rdb_changes:7 '' @ ''rdb_bgsave_in_progress:1'' @ '' rdb_x:0'')"
    by (simp add: demo_world_def log_Println_def)
  have "sublist ''rdb_bgsave_in_progress:1''
      (''rdb_changes:7 '' @ ''rdb_bgsave_in_progress:1'' @ '' rdb_x:0'')"
    unfolding sublist_def by blast
  from triggerBGSAVE_in_progress [OF i this]
  show ?thesis by (simp add: demo_triggered_def)
qed

lemma not_in_progress:
  "containsBGSAVEInProgress ''rdb_changes:0 rdb_bgsave_in_progress:0 rdb_x:0'' = Return False"
  by code_simp

lemma demo_wait:
  "waitForBGSAVE m Background demo_triggered = Some (Return (None, demo_waited))"
proof -
  let ?w = "log_Println ''Waiting for BGSAVE to complete...'' demo_triggered"
  have s: "select_wait Background ?w = (None, snd (select_wait Background ?w))"
    by (simp add: select_wait_def demo_triggered_def log_Println_def redis_Info_def demo_world_def)
  have i: "redis_Info Background ''persistence'' (snd (select_wait Background ?w)) =
      (Inr ''rdb_changes:0 rdb_bgsave_in_progress:0 rdb_x:0'',
       snd (redis_Info Background ''persistence'' (snd (select_wait Background ?w))))"
    by (simp add: select_wait_def demo_triggered_def log_Println_def redis_Info_def demo_world_def)
  show ?thesis
    unfolding waitForBGSAVE_def
    by (subst waitForBGSAVE_loop.simps, subst s, simp only: prod.case option.case,
        subst i, simp only: prod.case sum.case not_in_progress go.case)
       (simp add: demo_waited_def)
qed


lemma demo_upload:
  "Upload demo_storage Background p n w = (None, w)"
  by (simp add: demo_storage_def)

lemma demo_delete_oldest:
  "Delete demo_storage Background ''b_2024-01-01_00-00-00.rdb'' w = (Some ErrNotExist, w)"
  by (simp add: demo_storage_def)

theorem retention_failures_not_fatal_witness:
  "triggerBGSAVE (demo_manager 3) Background
     (log_Println ''Starting backup process...'' demo_world) = Return (None, demo_triggered) \<and>
   waitForBGSAVE (demo_manager 3) Background demo_triggered = Some (Return (None, demo_waited)) \<and>
   (\<exists>w'. Run (demo_manager 3) Background demo_world = Some (Return (None, w'))) \<and>
   (\<exists>w5. Run (demo_manager 3) Background demo_world =
      Some (Return (None, log_Printf ''Retention policy applied, deleted %d old backup(s)'' [ArgD 2]
        (attempt_deletes (demo_manager 3) Background [''b_2024-01-02_00-00-00.rdb'']
           (log_Printf ''Warning: failed to delete %s: %v''
              [ArgS ''b_2024-01-01_00-00-00.rdb'', ArgV ErrNotExist]
              (log_Printf ''Deleting old backup: %s'' [ArgS ''b_2024-01-01_00-00-00.rdb''] w5)))))) \<and>
   (\<exists>w5. Run (demo_manager_unlisted 3) Background demo_world =
      Some (Return (None, log_Printf ''Warning: failed to apply retention policy: %v''
                            [ArgV (Errorf ''failed to list backups'' (ErrOther ''offline''))] w5)))"
proof -
  let ?m = "demo_manager 3" and ?u = "demo_manager_unlisted 3"
  define w4 where "w4 = log_Printf ''Applying retention policy (keeping %d backups)...''
                  [ArgD (RetentionCount (cfg ?m))]
                  (log_Printf ''Backup completed successfully: %s (storage: %s)''
                    [ArgS (generateBackupName ?m demo_waited), ArgS (Type (storage ?m))] demo_waited)"
  define u4 where "u4 = log_Printf ''Applying retention policy (keeping %d backups)...''
                  [ArgD (RetentionCount (cfg ?u))]
                  (log_Printf ''Backup completed successfully: %s (storage: %s)''
                    [ArgS (generateBackupName ?u demo_waited), ArgS (Type (storage ?u))] demo_waited)"
  have sm: "storage ?m = demo_storage" and rm: "RetentionCount (cfg ?m) = 3"
    and ru: "RetentionCount (cfg ?u) = 3"
    by (simp_all add: demo_manager_def demo_manager_unlisted_def)
  have um: "Upload (storage ?m) Background (filepath_Join [RedisDataPath (cfg ?m), ''dump.rdb''])
                  (generateBackupName ?m demo_waited) demo_waited = (None, demo_waited)"
    by (simp add: sm demo_upload)
  have uu: "Upload (storage ?u) Background (filepath_Join [RedisDataPath (cfg ?u), ''dump.rdb''])
                  (generateBackupName ?u demo_waited) demo_waited = (None, demo_waited)"
    by (simp add: demo_manager_unlisted_def demo_upload)
  note M = retention_failures_not_fatal [OF demo_trigger demo_wait um w4_def]
  note U = retention_failures_not_fatal [OF demo_trigger demo_wait uu u4_def]
  have lm: "List (storage ?m) Background w4 = (Inr demo_names, w4)"
    by (simp add: sm demo_storage_def)
  have lu: "List (storage ?u) Background u4 = (Inl (ErrOther ''offline''), u4)"
    by (simp add: demo_manager_unlisted_def)
  have tk: "take (length demo_names - nat (RetentionCount (cfg ?m))) demo_names =
      [] @ ''b_2024-01-01_00-00-00.rdb'' # [''b_2024-01-02_00-00-00.rdb'']"
    by (simp add: rm demo_names_def)
  have dl: "Delete (storage ?m) Background ''b_2024-01-01_00-00-00.rdb''
      (log_Printf ''Deleting old backup: %s'' [ArgS ''b_2024-01-01_00-00-00.rdb'']
         (attempt_deletes ?m Background [] w4)) =
      (Some ErrNotExist, log_Printf ''Deleting old backup: %s'' [ArgS ''b_2024-01-01_00-00-00.rdb''] w4)"
    by (simp add: sm demo_delete_oldest attempt_deletes_def)
  have len: "0 < RetentionCount (cfg ?m) \<and> RetentionCount (cfg ?m) < int (length demo_names)"
    by (simp add: rm demo_names_def)
  from M have M3: "\<forall>backups w5 deleted.
        0 < RetentionCount (cfg ?m) \<and> RetentionCount (cfg ?m) < int (length backups) \<and>
        List (storage ?m) Background w4 = (Inr backups, w5) \<and>
        deleted = take (length backups - nat (RetentionCount (cfg ?m))) backups \<longrightarrow>
        Run ?m Background demo_world =
          Some (Return (None, log_Printf ''Retention policy applied, deleted %d old backup(s)''
                                [ArgD (int (length deleted))] (attempt_deletes ?m Background deleted w5))) \<and>
        (\<forall>xs x ys err wb.
           deleted = xs @ x # ys \<and>
           Delete (storage ?m) Background x
             (log_Printf ''Deleting old backup: %s'' [ArgS x] (attempt_deletes ?m Background xs w5)) =
               (Some err, wb) \<longrightarrow>
           attempt_deletes ?m Background deleted w5 =
             attempt_deletes ?m Background ys
               (log_Printf ''Warning: failed to delete %s: %v'' [ArgS x, ArgV err] wb))"
    by blast
  from M3 len lm tk
  have r1: "Run ?m Background demo_world =
          Some (Return (None, log_Printf ''Retention policy applied, deleted %d old backup(s)''
            [ArgD (int (length ([] @ ''b_2024-01-01_00-00-00.rdb'' # [''b_2024-01-02_00-00-00.rdb''])))]
            (attempt_deletes ?m Background
               ([] @ ''b_2024-01-01_00-00-00.rdb'' # [''b_2024-01-02_00-00-00.rdb'']) w4)))"
    and r2: "\<forall>xs x ys err wb.
           [] @ ''b_2024-01-01_00-00-00.rdb'' # [''b_2024-01-02_00-00-00.rdb''] = xs @ x # ys \<and>
           Delete (storage ?m) Background x
             (log_Printf ''Deleting old backup: %s'' [ArgS x] (attempt_deletes ?m Background xs w4)) =
               (Some err, wb) \<longrightarrow>
           attempt_deletes ?m Background
               ([] @ ''b_2024-01-01_00-00-00.rdb'' # [''b_2024-01-02_00-00-00.rdb'']) w4 =
             attempt_deletes ?m Background ys
               (log_Printf ''Warning: failed to delete %s: %v'' [ArgS x, ArgV err] wb)"
    by metis+
  from r2 dl have r3: "attempt_deletes ?m Background
               ([] @ ''b_2024-01-01_00-00-00.rdb'' # [''b_2024-01-02_00-00-00.rdb'']) w4 =
             attempt_deletes ?m Background [''b_2024-01-02_00-00-00.rdb'']
               (log_Printf ''Warning: failed to delete %s: %v''
                  [ArgS ''b_2024-01-01_00-00-00.rdb'', ArgV ErrNotExist]
                  (log_Printf ''Deleting old backup: %s'' [ArgS ''b_2024-01-01_00-00-00.rdb''] w4))"
    by blast
  have c4: "\<exists>w5. Run ?m Background demo_world =
      Some (Return (None, log_Printf ''Retention policy applied, deleted %d old backup(s)'' [ArgD 2]
        (attempt_deletes ?m Background [''b_2024-01-02_00-00-00.rdb'']
           (log_Printf ''Warning: failed to delete %s: %v''
              [ArgS ''b_2024-01-01_00-00-00.rdb'', ArgV ErrNotExist]
              (log_Printf ''Deleting old backup: %s'' [ArgS ''b_2024-01-01_00-00-00.rdb''] w5)))))"
    using r1 r3 by (intro exI [of _ w4]) simp
  have c5: "\<exists>w5. Run ?u Background demo_world =
      Some (Return (None, log_Printf ''Warning: failed to apply retention policy: %v''
                            [ArgV (Errorf ''failed to list backups'' (ErrOther ''offline''))] w5))"
    using U lu ru by (intro exI [of _ u4]) simp
  from M have c3: "\<exists>w'. Run ?m Background demo_world = Some (Return (None, w'))"
    by blast
  show ?thesis
    using demo_trigger demo_wait c3 c4 c5 by blast
qed

section \<open>The listings of the backends are in ascending order\<close>

lemma LocalStorage_List_sorted:
  "LocalStorage_List l ctx w = (Inr backups, w1) \<Longrightarrow> sorted backups"
  by (auto simp: LocalStorage_List_def sort_Strings_def split: sum.splits)

lemma S3Storage_List_sorted:
  "S3Storage_List s ctx w = (Inr backups, w1) \<Longrightarrow> sorted backups"
  by (auto simp: S3Storage_List_def sort_Strings_def Let_def split: prod.splits option.splits)

lemma GCPStorage_List_sorted:
  "GCPStorage_List g ctx w = (Inr backups, w1) \<Longrightarrow> sorted backups"
  by (auto simp: GCPStorage_List_def sort_Strings_def Let_def split: sum.splits)

lemma backend_List_sorted:
  assumes "S = LocalStorage_Storage l \<or> S = S3Storage_Storage s \<or> S = GCPStorage_Storage g"
      and "List S ctx w = (Inr backups, w1)"
  shows "sorted backups"
  using assms LocalStorage_List_sorted [of l ctx w backups w1]
    S3Storage_List_sorted [of s ctx w backups w1] GCPStorage_List_sorted [of g ctx w backups w1]
  by (auto simp: LocalStorage_Storage_def S3Storage_Storage_def GCPStorage_Storage_def)

text \<open>
  C1. The retention step of \<open>Run\<close> on each of the three backends (local, S3-compatible,
  Google Cloud Storage), for a retention count \<open>r\<close> and a listing of \<open>n\<close> names.
  With \<open>r = 0\<close> it does nothing at all: the world is unchanged. With \<open>0 < r\<close> and
  \<open>n \<le> r\<close> the world is the one \<open>List\<close> returned, with one more line in the log: no
  deletion. With \<open>0 < r < n\<close> the world is the one obtained by attempting the deletion
  of the names \<open>deleted\<close>, one call of \<open>Delete\<close> each in the order of \<open>deleted\<close>,
  where \<open>deleted\<close> holds exactly \<open>n - r\<close> names, is the start of the listing, is in
  ascending order, and each of its names is at most every name of the listing that is
  kept: the \<open>n - r\<close> lexically smallest names.
\<close>

theorem retention_deletes_oldest:
  assumes backend: "storage m = LocalStorage_Storage l \<or> storage m = S3Storage_Storage s \<or>
                    storage m = GCPStorage_Storage g"
      and lst: "List (storage m) ctx
      (log_Printf ''Applying retention policy (keeping %d backups)...''
         [ArgD (RetentionCount (cfg m))] w) = (Inr backups, w1)"
  shows
    "(RetentionCount (cfg m) = 0 \<longrightarrow> Run_retention m ctx w = Return w) \<and>
     (0 < RetentionCount (cfg m) \<and> int (length backups) \<le> RetentionCount (cfg m) \<longrightarrow>
        Run_retention m ctx w =
          Return (log_Printf ''Current backup count (%d) within retention limit''
                    [ArgD (int (length backups))] w1)) \<and>
     (0 < RetentionCount (cfg m) \<and> RetentionCount (cfg m) < int (length backups) \<longrightarrow>
        (\<exists>deleted.
           Run_retention m ctx w =
             Return (log_Printf ''Retention policy applied, deleted %d old backup(s)''
                       [ArgD (int (length deleted))] (attempt_deletes m ctx deleted w1)) \<and>
           int (length deleted) = int (length backups) - RetentionCount (cfg m) \<and>
           deleted = take (length deleted) backups \<and>
           sorted deleted \<and>
           (\<forall>d \<in> set deleted. \<forall>k \<in> set (drop (length deleted) backups). d \<le> k)))"
proof -
  have srt: "sorted backups"
    using backend_List_sorted [OF backend lst] .
  note gen = retention_deletes_prefix [OF lst]
  show ?thesis
  proof (intro conjI)
    show "RetentionCount (cfg m) = 0 \<longrightarrow> Run_retention m ctx w = Return w"
      using gen by (rule conjunct1)
    show "0 < RetentionCount (cfg m) \<and> int (length backups) \<le> RetentionCount (cfg m) \<longrightarrow>
        Run_retention m ctx w =
          Return (log_Printf ''Current backup count (%d) within retention limit''
                    [ArgD (int (length backups))] w1)"
      using gen [THEN conjunct2] by (rule conjunct1)
    show "0 < RetentionCount (cfg m) \<and> RetentionCount (cfg m) < int (length backups) \<longrightarrow>
        (\<exists>deleted.
           Run_retention m ctx w =
             Return (log_Printf ''Retention policy applied, deleted %d old backup(s)''
                       [ArgD (int (length deleted))] (attempt_deletes m ctx deleted w1)) \<and>
           int (length deleted) = int (length backups) - RetentionCount (cfg m) \<and>
           deleted = take (length deleted) backups \<and>
           sorted deleted \<and>
           (\<forall>d \<in> set deleted. \<forall>k \<in> set (drop (length deleted) backups). d \<le> k))"
    proof
      assume a: "0 < RetentionCount (cfg m) \<and> RetentionCount (cfg m) < int (length backups)"
      from gen [THEN conjunct2, THEN conjunct2, THEN mp, OF a]
      obtain deleted where d:
        "Run_retention m ctx w =
             Return (log_Printf ''Retention policy applied, deleted %d old backup(s)''
                       [ArgD (int (length deleted))] (attempt_deletes m ctx deleted w1))"
        "int (length deleted) = int (length backups) - RetentionCount (cfg m)"
        "deleted = take (length deleted) backups"
        "sorted backups \<longrightarrow> sorted deleted \<and>
           (\<forall>d \<in> set deleted. \<forall>k \<in> set (drop (length deleted) backups). d \<le> k)"
        by (elim exE conjE)
      from d(4) srt have "sorted deleted \<and>
           (\<forall>d \<in> set deleted. \<forall>k \<in> set (drop (length deleted) backups). d \<le> k)"
        by (rule mp)
      with d(1,2,3) show "\<exists>deleted.
           Run_retention m ctx w =
             Return (log_Printf ''Retention policy applied, deleted %d old backup(s)''
                       [ArgD (int (length deleted))] (attempt_deletes m ctx deleted w1)) \<and>
           int (length deleted) = int (length backups) - RetentionCount (cfg m) \<and>
           deleted = take (length deleted) backups \<and>
           sorted deleted \<and>
           (\<forall>d \<in> set deleted. \<forall>k \<in> set (drop (length deleted) backups). d \<le> k)"
        by (intro exI [of _ deleted] conjI) (assumption | erule conjunct1 | erule conjunct2)+
    qed
  qed
qed

lemma LocalStorage_List_log:
  "LocalStorage_List l ctx (log_Printf f a w) =
     (fst (LocalStorage_List l ctx w), log_Printf f a w)"
  by (simp add: LocalStorage_List_def os_ReadDir_def log_Printf_def Let_def
      split: sum.splits option.splits fnode.splits)

lemma demo_local_listing:
  "fst (LocalStorage_List demo_local Background demo_world) = Inr demo_names"
  by code_simp

lemma demo_local_List:
  "List (storage (demo_local_manager r)) Background (log_Printf f a demo_world) =
     (Inr demo_names, log_Printf f a demo_world)"
  by (simp add: demo_local_manager_def LocalStorage_Storage_def LocalStorage_List_log
      demo_local_listing)

lemma demo_local_backend:
  "storage (demo_local_manager r) = LocalStorage_Storage demo_local \<or>
   storage (demo_local_manager r) = S3Storage_Storage demo_s3 \<or>
   storage (demo_local_manager r) = GCPStorage_Storage demo_gcp"
  by (simp add: demo_local_manager_def)

lemma demo_local_deleted_files:
  "map fst (files (attempt_deletes (demo_local_manager 3) Background
       [''b_2024-01-01_00-00-00.rdb'', ''b_2024-01-02_00-00-00.rdb'']
       (log_Printf ''Applying retention policy (keeping %d backups)...'' [ArgD 3] demo_world))) =
   [''/'', ''/data'', ''/data/dump.rdb'', ''/backups'',
    ''/backups/b_2024-01-03_00-00-00.rdb'', ''/backups/b_2024-01-04_00-00-00.rdb'',
    ''/backups/b_2024-01-05_00-00-00.rdb'']"
  by code_simp

theorem retention_deletes_oldest_witness:
  "Run_retention (demo_local_manager 0) Background demo_world = Return demo_world \<and>
   Run_retention (demo_local_manager 7) Background demo_world =
     Return (log_Printf ''Current backup count (%d) within retention limit'' [ArgD 5]
       (log_Printf ''Applying retention policy (keeping %d backups)...'' [ArgD 7] demo_world)) \<and>
   (\<exists>deleted.
      Run_retention (demo_local_manager 3) Background demo_world =
        Return (log_Printf ''Retention policy applied, deleted %d old backup(s)'' [ArgD 2]
          (attempt_deletes (demo_local_manager 3) Background deleted
             (log_Printf ''Applying retention policy (keeping %d backups)...'' [ArgD 3] demo_world))) \<and>
      deleted = [''b_2024-01-01_00-00-00.rdb'', ''b_2024-01-02_00-00-00.rdb''] \<and>
      sorted deleted \<and>
      (\<forall>d \<in> set deleted. \<forall>k \<in> set (drop 2 demo_names). d \<le> k) \<and>
      map fst (files (attempt_deletes (demo_local_manager 3) Background deleted
             (log_Printf ''Applying retention policy (keeping %d backups)...'' [ArgD 3] demo_world))) =
        [''/'', ''/data'', ''/data/dump.rdb'', ''/backups'',
         ''/backups/b_2024-01-03_00-00-00.rdb'', ''/backups/b_2024-01-04_00-00-00.rdb'',
         ''/backups/b_2024-01-05_00-00-00.rdb''])"
proof -
  have r0: "RetentionCount (cfg (demo_local_manager 0)) = 0"
    and r7: "0 < RetentionCount (cfg (demo_local_manager 7)) \<and>
             int (length demo_names) \<le> RetentionCount (cfg (demo_local_manager 7))"
    and r3: "0 < RetentionCount (cfg (demo_local_manager 3)) \<and>
             RetentionCount (cfg (demo_local_manager 3)) < int (length demo_names)"
    by (simp_all add: demo_local_manager_def demo_names_def)
  have a: "Run_retention (demo_local_manager 0) Background demo_world = Return demo_world"
    using retention_deletes_oldest [OF demo_local_backend [of 0] demo_local_List [of 0],
        THEN conjunct1] r0
    by (rule mp)
  have b0: "Run_retention (demo_local_manager 7) Background demo_world =
     Return (log_Printf ''Current backup count (%d) within retention limit''
       [ArgD (int (length demo_names))]
       (log_Printf ''Applying retention policy (keeping %d backups)...''
          [ArgD (RetentionCount (cfg (demo_local_manager 7)))] demo_world))"
    using retention_deletes_oldest [OF demo_local_backend [of 7] demo_local_List [of 7],
        THEN conjunct2, THEN conjunct1] r7
    by (rule mp)
  have b: "Run_retention (demo_local_manager 7) Background demo_world =
     Return (log_Printf ''Current backup count (%d) within retention limit'' [ArgD 5]
       (log_Printf ''Applying retention policy (keeping %d backups)...'' [ArgD 7] demo_world))"
    using b0 by (simp add: demo_local_manager_def demo_names_def)
  obtain deleted where d:
    "Run_retention (demo_local_manager 3) Background demo_world =
        Return (log_Printf ''Retention policy applied, deleted %d old backup(s)''
          [ArgD (int (length deleted))]
          (attempt_deletes (demo_local_manager 3) Background deleted
             (log_Printf ''Applying retention policy (keeping %d backups)...''
                [ArgD (RetentionCount (cfg (demo_local_manager 3)))] demo_world)))"
    "int (length deleted) = int (length demo_names) - RetentionCount (cfg (demo_local_manager 3))"
    "deleted = take (length deleted) demo_names"
    "sorted deleted"
    "\<forall>d \<in> set deleted. \<forall>k \<in> set (drop (length deleted) demo_names). d \<le> k"
    using retention_deletes_oldest [OF demo_local_backend [of 3] demo_local_List [of 3],
        THEN conjunct2, THEN conjunct2, THEN mp, OF r3]
    by (elim exE conjE)
  have r3v: "RetentionCount (cfg (demo_local_manager 3)) = 3"
    by (simp add: demo_local_manager_def)
  have l2: "length deleted = 2"
    using d(2) by (simp add: r3v demo_names_def)
  have dl: "deleted = [''b_2024-01-01_00-00-00.rdb'', ''b_2024-01-02_00-00-00.rdb'']"
    using d(3) by (simp only: l2) (simp add: demo_names_def)
  have o: "\<forall>d \<in> set deleted. \<forall>k \<in> set (drop 2 demo_names). d \<le> k"
    using d(5) by (simp only: l2)
  have c: "Run_retention (demo_local_manager 3) Background demo_world =
        Return (log_Printf ''Retention policy applied, deleted %d old backup(s)'' [ArgD 2]
          (attempt_deletes (demo_local_manager 3) Background deleted
             (log_Printf ''Applying retention policy (keeping %d backups)...'' [ArgD 3] demo_world)))"
    using d(1) by (simp only: l2 r3v) simp
  have f: "map fst (files (attempt_deletes (demo_local_manager 3) Background deleted
             (log_Printf ''Applying retention policy (keeping %d backups)...'' [ArgD 3] demo_world))) =
        [''/'', ''/data'', ''/data/dump.rdb'', ''/backups'',
         ''/backups/b_2024-01-03_00-00-00.rdb'', ''/backups/b_2024-01-04_00-00-00.rdb'',
         ''/backups/b_2024-01-05_00-00-00.rdb'']"
    by (simp only: dl demo_local_deleted_files)
  show ?thesis
    by (intro conjI exI [of _ deleted]) (rule a b c dl d(4) o f)+
qed

section \<open>Destination keys\<close>

lemma TrimSuffix_slash:
  "\<exists>p. strings_TrimSuffix pfx ''/'' = p \<and>
       (pfx = p @ ''/'' \<or> (pfx = p \<and> \<not> suffix ''/'' pfx))"
proof (cases "strings_HasSuffix pfx ''/''")
  case True
  then have "pfx = take (length pfx - 1) pfx @ ''/''"
    by (simp add: strings_HasSuffix_def)
       (metis append_take_drop_id)
  with True show ?thesis
    by (simp add: strings_TrimSuffix_def)
next
  case False
  have "\<not> suffix ''/'' pfx"
  proof
    assume "suffix ''/'' pfx"
    then obtain zs where "pfx = zs @ ''/''" by (auto simp: suffix_def)
    then have "strings_HasSuffix pfx ''/''" by (simp add: strings_HasSuffix_def)
    with False show False by simp
  qed
  with False show ?thesis
    by (simp add: strings_TrimSuffix_def)
qed

lemma getKey_shape:
  "(backupPrefix s = [] \<longrightarrow> getKey s name = name) \<and>
   (backupPrefix s \<noteq> [] \<longrightarrow>
      (\<exists>p. getKey s name = p @ ''/'' @ name \<and>
           (backupPrefix s = p @ ''/'' \<or> (backupPrefix s = p \<and> \<not> suffix ''/'' (backupPrefix s)))))"
  using TrimSuffix_slash [of "backupPrefix s"] by (auto simp: getKey_def)

lemma getObjectName_shape:
  "(gcp_backupPrefix s = [] \<longrightarrow> getObjectName s name = name) \<and>
   (gcp_backupPrefix s \<noteq> [] \<longrightarrow>
      (\<exists>p. getObjectName s name = p @ ''/'' @ name \<and>
           (gcp_backupPrefix s = p @ ''/'' \<or>
            (gcp_backupPrefix s = p \<and> \<not> suffix ''/'' (gcp_backupPrefix s)))))"
  using TrimSuffix_slash [of "gcp_backupPrefix s"] by (auto simp: getObjectName_def)

lemma S3Storage_Upload_key:
  "S3Storage_Upload s ctx src name w = (None, w') \<Longrightarrow>
   \<exists>c. w' = w\<lparr>s3_objects := AList.update (bucket s, getKey s name) c (s3_objects w)\<rparr>"
  by (auto simp: S3Storage_Upload_def s3manager_Upload_def Let_def
      split: sum.splits option.splits prod.splits)

lemma S3Storage_Delete_key:
  "S3Storage_Delete s ctx name w = (None, w') \<Longrightarrow>
   w' = w\<lparr>s3_objects := AList.delete (bucket s, getKey s name) (s3_objects w)\<rparr>"
  by (auto simp: S3Storage_Delete_def s3_DeleteObject_def Let_def
      split: sum.splits option.splits prod.splits)

lemma GCPStorage_Upload_key:
  "GCPStorage_Upload s ctx src name w = (None, w') \<Longrightarrow>
   \<exists>c. w' = w\<lparr>gcs_objects := AList.update (gcp_bucket s, getObjectName s name) c (gcs_objects w)\<rparr>"
  by (auto simp: GCPStorage_Upload_def gcs_Writer_Close_def Let_def
      split: sum.splits option.splits prod.splits)

lemma GCPStorage_Delete_key:
  "GCPStorage_Delete s ctx name w = (None, w') \<Longrightarrow>
   w' = w\<lparr>gcs_objects := AList.delete (gcp_bucket s, getObjectName s name) (gcs_objects w)\<rparr>"
  by (auto simp: GCPStorage_Delete_def gcs_Object_Delete_def Let_def
      split: sum.splits option.splits prod.splits)

lemma os_Create_ok:
  "os_Create p w = (Inr dst, w1) \<Longrightarrow>
   dst = filepath_Clean p \<and> w1 = w\<lparr>files := AList.update dst (File []) (files w)\<rparr>"
  by (auto simp: os_Create_def Let_def split: if_splits option.splits fnode.splits)

lemma io_Copy_ok:
  "io_Copy dst src lim w = (None, w2) \<Longrightarrow>
   \<exists>c. w2 = w\<lparr>files := AList.update dst (File c) (files w)\<rparr>"
  by (auto simp: io_Copy_def split: sum.splits)

lemma LocalStorage_Upload_path:
  assumes "LocalStorage_Upload s ctx src name w = (None, w')"
  shows "\<exists>c. w' = w\<lparr>files := AList.update (filepath_Clean (filepath_Join [basePath s, name]))
                          (File c) (files w)\<rparr>"
proof -
  let ?dest = "filepath_Join [basePath s, name]"
  from assms(1) obtain h dst w1 w2 where
    c: "os_Create ?dest w = (Inr dst, w1)" and cp: "io_Copy dst h None w1 = (None, w2)" and "w' = w2"
    by (auto simp: LocalStorage_Upload_def Let_def
        split: sum.splits option.splits prod.splits)
  from os_Create_ok [OF c] io_Copy_ok [OF cp] \<open>w' = w2\<close>
  show ?thesis by auto
qed


text \<open>
  C4. The key under which the object-store backends store and delete an artifact is the
  bare name when the configured prefix is empty, and otherwise \<open>p\<close>, then \<open>/\<close>, then the
  name, where \<open>p\<close> is the prefix without its one trailing \<open>/\<close> (the prefix itself when it
  has none). A successful \<open>Upload\<close> changes the object under that key of the bucket and
  nothing else, a successful \<open>Delete\<close> removes the object under that key and nothing
  else. A successful \<open>Upload\<close> of the local backend changes the file at the path
  \<open>filepath.Join(basePath, name)\<close> and nothing else.
\<close>

theorem destination_key:
  "(backupPrefix s = [] \<longrightarrow> getKey s name = name) \<and>
   (backupPrefix s \<noteq> [] \<longrightarrow>
      (\<exists>p. getKey s name = p @ ''/'' @ name \<and>
           (backupPrefix s = p @ ''/'' \<or> (backupPrefix s = p \<and> \<not> suffix ''/'' (backupPrefix s))))) \<and>
   (S3Storage_Upload s ctx src name w = (None, w') \<longrightarrow>
      (\<exists>c. w' = w\<lparr>s3_objects := AList.update (bucket s, getKey s name) c (s3_objects w)\<rparr>)) \<and>
   (S3Storage_Delete s ctx name w = (None, w') \<longrightarrow>
      w' = w\<lparr>s3_objects := AList.delete (bucket s, getKey s name) (s3_objects w)\<rparr>) \<and>
   (gcp_backupPrefix g = [] \<longrightarrow> getObjectName g name = name) \<and>
   (gcp_backupPrefix g \<noteq> [] \<longrightarrow>
      (\<exists>p. getObjectName g name = p @ ''/'' @ name \<and>
           (gcp_backupPrefix g = p @ ''/'' \<or>
            (gcp_backupPrefix g = p \<and> \<not> suffix ''/'' (gcp_backupPrefix g))))) \<and>
   (GCPStorage_Upload g ctx src name w = (None, w') \<longrightarrow>
      (\<exists>c. w' = w\<lparr>gcs_objects := AList.update (gcp_bucket g, getObjectName g name) c (gcs_objects w)\<rparr>)) \<and>
   (GCPStorage_Delete g ctx name w = (None, w') \<longrightarrow>
      w' = w\<lparr>gcs_objects := AList.delete (gcp_bucket g, getObjectName g name) (gcs_objects w)\<rparr>) \<and>
   (LocalStorage_Upload l ctx src name w = (None, w') \<longrightarrow>
      (\<exists>c. w' = w\<lparr>files := AList.update (filepath_Clean (filepath_Join [basePath l, name]))
                          (File c) (files w)\<rparr>))"
  using getKey_shape [of s name] getObjectName_shape [of g name]
    S3Storage_Upload_key [of s ctx src name w w'] S3Storage_Delete_key [of s ctx name w w']
    GCPStorage_Upload_key [of g ctx src name w w'] GCPStorage_Delete_key [of g ctx name w w']
    LocalStorage_Upload_path [of l ctx src name w w']
  by blast

lemma clean_dump: "filepath_Clean ''/data/dump.rdb'' = ''/data/dump.rdb''"
  by code_simp

lemma dir_dest: "filepath_Dir ''/backups/b_2024-01-06_00-00-00.rdb'' = ''/backups''"
  by code_simp

lemma join_dest:
  "filepath_Join [''/backups'', ''b_2024-01-06_00-00-00.rdb''] = ''/backups/b_2024-01-06_00-00-00.rdb''"
  by code_simp

lemma clean_dest:
  "filepath_Clean ''/backups/b_2024-01-06_00-00-00.rdb'' = ''/backups/b_2024-01-06_00-00-00.rdb''"
  by code_simp

lemma demo_open: "os_Open ''/data/dump.rdb'' demo_world = Inr ''/data/dump.rdb''"
  by (simp add: os_Open_def clean_dump demo_world_def)

lemma demo_read: "read_all ''/data/dump.rdb'' demo_world = Inr ''REDIS0011''"
  by (simp add: read_all_def demo_world_def)

lemma demo_getKey:
  "getKey demo_s3 ''b_2024-01-06_00-00-00.rdb'' = ''redis-backups/b_2024-01-06_00-00-00.rdb''"
  by (simp add: demo_s3_def getKey_def strings_TrimSuffix_def strings_HasSuffix_def)

lemma demo_getObjectName:
  "getObjectName demo_gcp ''b_2024-01-06_00-00-00.rdb'' = ''redis-backups/b_2024-01-06_00-00-00.rdb''"
  by (simp add: demo_gcp_def getObjectName_def strings_TrimSuffix_def strings_HasSuffix_def)

lemma demo_s3_upload:
  "S3Storage_Upload demo_s3 Background ''/data/dump.rdb'' ''b_2024-01-06_00-00-00.rdb'' demo_world =
   (None, demo_world\<lparr>s3_objects :=
      AList.update (''bkt'', ''redis-backups/b_2024-01-06_00-00-00.rdb'') ''REDIS0011''
        (s3_objects demo_world)\<rparr>)"
proof -
  have f: "s3_fault demo_world = None" by (simp add: demo_world_def)
  have b: "bucket demo_s3 = ''bkt''" by (simp add: demo_s3_def)
  show ?thesis
    by (simp add: S3Storage_Upload_def demo_open Let_def demo_getKey s3manager_Upload_def f b demo_read)
qed

lemma demo_gcp_upload:
  "GCPStorage_Upload demo_gcp Background ''/data/dump.rdb'' ''b_2024-01-06_00-00-00.rdb'' demo_world =
   (None, demo_world\<lparr>gcs_objects :=
      AList.update (''bkt'', ''redis-backups/b_2024-01-06_00-00-00.rdb'') ''REDIS0011''
        (gcs_objects demo_world)\<rparr>)"
proof -
  have f: "gcs_fault demo_world = None" by (simp add: demo_world_def)
  have b: "gcp_bucket demo_gcp = ''bkt''" by (simp add: demo_gcp_def)
  show ?thesis
    by (simp add: GCPStorage_Upload_def demo_open Let_def demo_getObjectName gcs_Writer_Close_def
        f b demo_read)
qed

lemma demo_s3_delete:
  "S3Storage_Delete demo_s3_bare Background ''redis-backups/b_2024-01-01_00-00-00.rdb'' demo_world =
   (None, demo_world\<lparr>s3_objects := []\<rparr>)"
  by (simp add: S3Storage_Delete_def getKey_def s3_DeleteObject_def demo_world_def AList.delete_eq
      demo_s3_bare_def)

lemma demo_gcp_delete:
  "GCPStorage_Delete demo_gcp_bare Background ''redis-backups/b_2024-01-01_00-00-00.rdb'' demo_world =
   (None, demo_world\<lparr>gcs_objects := []\<rparr>)"
  by (simp add: GCPStorage_Delete_def getObjectName_def gcs_Object_Delete_def demo_world_def
      AList.delete_eq demo_gcp_bare_def)

lemma demo_local_upload:
  "LocalStorage_Upload demo_local Background
     ''/data/dump.rdb'' ''b_2024-01-06_00-00-00.rdb'' demo_world =
   (None, demo_world\<lparr>files := files demo_world @
      [(''/backups/b_2024-01-06_00-00-00.rdb'', File ''REDIS0011'')]\<rparr>)"
proof -
  have cr: "os_Create ''/backups/b_2024-01-06_00-00-00.rdb'' demo_world =
      (Inr ''/backups/b_2024-01-06_00-00-00.rdb'',
       demo_world\<lparr>files := files demo_world @ [(''/backups/b_2024-01-06_00-00-00.rdb'', File [])]\<rparr>)"
    by (simp add: os_Create_def clean_dest dir_dest Let_def demo_world_def)
  have cp: "io_Copy ''/backups/b_2024-01-06_00-00-00.rdb'' ''/data/dump.rdb'' None
       (demo_world\<lparr>files := files demo_world @ [(''/backups/b_2024-01-06_00-00-00.rdb'', File [])]\<rparr>) =
      (None, demo_world\<lparr>files := files demo_world @
          [(''/backups/b_2024-01-06_00-00-00.rdb'', File ''REDIS0011'')]\<rparr>)"
    by (simp add: io_Copy_def read_all_def demo_world_def)
  have u: "upload_select (demo_world\<lparr>files := files demo_world @
      [(''/backups/b_2024-01-06_00-00-00.rdb'', File [])]\<rparr>) = None"
    by (simp add: demo_world_def)
  have b: "basePath demo_local = ''/backups''" by (simp add: demo_local_def)
  show ?thesis
    by (simp add: LocalStorage_Upload_def Let_def b join_dest demo_open cr u cp del: filepath_Join.simps)
qed

theorem destination_key_witness:
  "(\<exists>p. getKey demo_s3 ''b_2024-01-06_00-00-00.rdb'' = p @ ''/'' @ ''b_2024-01-06_00-00-00.rdb'' \<and>
        backupPrefix demo_s3 = p @ ''/'') \<and>
   (\<exists>p. getObjectName demo_gcp ''b_2024-01-06_00-00-00.rdb'' =
          p @ ''/'' @ ''b_2024-01-06_00-00-00.rdb'' \<and>
        gcp_backupPrefix demo_gcp = p) \<and>
   getKey demo_s3_bare ''redis-backups/b_2024-01-01_00-00-00.rdb'' =
     ''redis-backups/b_2024-01-01_00-00-00.rdb'' \<and>
   getObjectName demo_gcp_bare ''redis-backups/b_2024-01-01_00-00-00.rdb'' =
     ''redis-backups/b_2024-01-01_00-00-00.rdb'' \<and>
   (\<exists>c. snd (S3Storage_Upload demo_s3 Background ''/data/dump.rdb'' ''b_2024-01-06_00-00-00.rdb''
              demo_world) =
        demo_world\<lparr>s3_objects := AList.update
          (bucket demo_s3, getKey demo_s3 ''b_2024-01-06_00-00-00.rdb'') c (s3_objects demo_world)\<rparr>) \<and>
   (\<exists>c. snd (GCPStorage_Upload demo_gcp Background ''/data/dump.rdb'' ''b_2024-01-06_00-00-00.rdb''
              demo_world) =
        demo_world\<lparr>gcs_objects := AList.update
          (gcp_bucket demo_gcp, getObjectName demo_gcp ''b_2024-01-06_00-00-00.rdb'') c
          (gcs_objects demo_world)\<rparr>) \<and>
   snd (S3Storage_Delete demo_s3_bare Background ''redis-backups/b_2024-01-01_00-00-00.rdb''
          demo_world) =
     demo_world\<lparr>s3_objects := AList.delete
        (bucket demo_s3_bare, getKey demo_s3_bare ''redis-backups/b_2024-01-01_00-00-00.rdb'')
        (s3_objects demo_world)\<rparr> \<and>
   snd (GCPStorage_Delete demo_gcp_bare Background ''redis-backups/b_2024-01-01_00-00-00.rdb''
          demo_world) =
     demo_world\<lparr>gcs_objects := AList.delete
        (gcp_bucket demo_gcp_bare,
         getObjectName demo_gcp_bare ''redis-backups/b_2024-01-01_00-00-00.rdb'')
        (gcs_objects demo_world)\<rparr> \<and>
   (\<exists>c. snd (LocalStorage_Upload demo_local Background ''/data/dump.rdb''
              ''b_2024-01-06_00-00-00.rdb'' demo_world) =
        demo_world\<lparr>files := AList.update
          (filepath_Clean (filepath_Join [basePath demo_local, ''b_2024-01-06_00-00-00.rdb'']))
          (File c) (files demo_world)\<rparr>)"
proof -
  let ?n = "''b_2024-01-06_00-00-00.rdb''" and ?k = "''redis-backups/b_2024-01-01_00-00-00.rdb''"
  have su: "S3Storage_Upload demo_s3 Background ''/data/dump.rdb'' ?n demo_world =
      (None, snd (S3Storage_Upload demo_s3 Background ''/data/dump.rdb'' ?n demo_world))"
    by (simp only: demo_s3_upload snd_conv)
  have gu: "GCPStorage_Upload demo_gcp Background ''/data/dump.rdb'' ?n demo_world =
      (None, snd (GCPStorage_Upload demo_gcp Background ''/data/dump.rdb'' ?n demo_world))"
    by (simp only: demo_gcp_upload snd_conv)
  have lu: "LocalStorage_Upload demo_local Background ''/data/dump.rdb'' ?n demo_world =
      (None, snd (LocalStorage_Upload demo_local Background ''/data/dump.rdb'' ?n demo_world))"
    by (simp only: demo_local_upload snd_conv)
  have sd: "S3Storage_Delete demo_s3_bare Background ?k demo_world =
      (None, snd (S3Storage_Delete demo_s3_bare Background ?k demo_world))"
    by (simp only: demo_s3_delete snd_conv)
  have gd: "GCPStorage_Delete demo_gcp_bare Background ?k demo_world =
      (None, snd (GCPStorage_Delete demo_gcp_bare Background ?k demo_world))"
    by (simp only: demo_gcp_delete snd_conv)
  have ps: "backupPrefix demo_s3 \<noteq> []" and pg: "gcp_backupPrefix demo_gcp \<noteq> []"
    and es: "backupPrefix demo_s3_bare = []" and eg: "gcp_backupPrefix demo_gcp_bare = []"
    and sfx: "suffix ''/'' (backupPrefix demo_s3)"
    and nsfx: "\<not> suffix ''/'' (gcp_backupPrefix demo_gcp)"
    by (simp_all add: demo_s3_def demo_gcp_def demo_s3_bare_def demo_gcp_bare_def suffix_def)
  note up = destination_key [where s = demo_s3 and g = demo_gcp and l = demo_local and name = ?n
      and ctx = Background and src = "''/data/dump.rdb''" and w = demo_world]
  note dl = destination_key [where s = demo_s3_bare and g = demo_gcp_bare and l = demo_local
      and name = ?k and ctx = Background and src = "''/data/dump.rdb''" and w = demo_world]
  have d1: "\<exists>p. getKey demo_s3 ?n = p @ ''/'' @ ?n \<and>
           (backupPrefix demo_s3 = p @ ''/'' \<or>
            (backupPrefix demo_s3 = p \<and> \<not> suffix ''/'' (backupPrefix demo_s3)))"
    by (rule up [where w' = demo_world, THEN conjunct2, THEN conjunct1, THEN mp, OF ps])
  have a1: "\<exists>p. getKey demo_s3 ?n = p @ ''/'' @ ?n \<and> backupPrefix demo_s3 = p @ ''/''"
  proof -
    from d1 obtain p where k: "getKey demo_s3 ?n = p @ ''/'' @ ?n"
      and d: "backupPrefix demo_s3 = p @ ''/'' \<or>
            (backupPrefix demo_s3 = p \<and> \<not> suffix ''/'' (backupPrefix demo_s3))"
      by (elim exE conjE)
    from d sfx have "backupPrefix demo_s3 = p @ ''/''"
      by (elim disjE conjE) (assumption, erule (1) notE)
    with k show ?thesis by (intro exI conjI)
  qed
  have d2: "\<exists>p. getObjectName demo_gcp ?n = p @ ''/'' @ ?n \<and>
           (gcp_backupPrefix demo_gcp = p @ ''/'' \<or>
            (gcp_backupPrefix demo_gcp = p \<and> \<not> suffix ''/'' (gcp_backupPrefix demo_gcp)))"
    by (rule up [where w' = demo_world, THEN conjunct2, THEN conjunct2, THEN conjunct2,
      THEN conjunct2, THEN conjunct2, THEN conjunct1, THEN mp, OF pg])
  have a2: "\<exists>p. getObjectName demo_gcp ?n = p @ ''/'' @ ?n \<and> gcp_backupPrefix demo_gcp = p"
  proof -
    from d2 obtain p where k: "getObjectName demo_gcp ?n = p @ ''/'' @ ?n"
      and d: "gcp_backupPrefix demo_gcp = p @ ''/'' \<or>
            (gcp_backupPrefix demo_gcp = p \<and> \<not> suffix ''/'' (gcp_backupPrefix demo_gcp))"
      by (elim exE conjE)
    have "gcp_backupPrefix demo_gcp = p"
    proof (rule disjE [OF d])
      assume e: "gcp_backupPrefix demo_gcp = p @ ''/''"
      have "suffix ''/'' (p @ ''/'')" by (rule suffixI) (rule refl)
      with e nsfx show ?thesis by simp
    next
      assume "gcp_backupPrefix demo_gcp = p \<and> \<not> suffix ''/'' (gcp_backupPrefix demo_gcp)"
      then show ?thesis by (rule conjunct1)
    qed
    with k show ?thesis by (intro exI conjI)
  qed
  note a3 = dl [where w' = demo_world, THEN conjunct1, THEN mp, OF es]
  note a4 = dl [where w' = demo_world, THEN conjunct2, THEN conjunct2, THEN conjunct2,
      THEN conjunct2, THEN conjunct1, THEN mp, OF eg]
  note a5 = up [THEN conjunct2, THEN conjunct2, THEN conjunct1, THEN mp, OF su]
  note a6 = up [THEN conjunct2, THEN conjunct2, THEN conjunct2, THEN conjunct2, THEN conjunct2,
      THEN conjunct2, THEN conjunct1, THEN mp, OF gu]
  note a7 = dl [THEN conjunct2, THEN conjunct2, THEN conjunct2, THEN conjunct1, THEN mp, OF sd]
  note a8 = dl [THEN conjunct2, THEN conjunct2, THEN conjunct2, THEN conjunct2, THEN conjunct2,
      THEN conjunct2, THEN conjunct2, THEN conjunct1, THEN mp, OF gd]
  note a9 = up [THEN conjunct2, THEN conjunct2, THEN conjunct2, THEN conjunct2, THEN conjunct2,
      THEN conjunct2, THEN conjunct2, THEN conjunct2, THEN mp, OF lu]
  show ?thesis
    by (intro conjI) (rule a1 a2 a3 a4 a5 a6 a7 a8 a9)+
qed

section \<open>Uploads from a missing source, deletions of a missing artifact\<close>



















section \<open>The names of a listing\<close>

lemma filepath_Base_no_separator:
  "filepath_Base p = ''/'' \<or> CHR ''/'' \<notin> set (filepath_Base p)"
proof (cases "p = []")
  case True
  then show ?thesis by (simp add: filepath_Base_def)
next
  case False
  have "CHR ''/'' \<notin> set (takeWhile (\<lambda>c. c \<noteq> CHR ''/'') xs)" for xs :: string
    by (auto dest: set_takeWhileD)
  then show ?thesis
    using False by (simp add: filepath_Base_def Let_def)
qed

lemma HasSuffix_suffix: "strings_HasSuffix s suf = suffix suf s"
proof
  assume "strings_HasSuffix s suf"
  then have "s = take (length s - length suf) s @ suf"
    by (simp add: strings_HasSuffix_def) (metis append_take_drop_id)
  then show "suffix suf s" by (rule suffixI)
next
  assume "suffix suf s"
  then obtain zs where "s = zs @ suf" by (auto simp: suffix_def)
  then show "strings_HasSuffix s suf" by (simp add: strings_HasSuffix_def)
qed

lemma suffix_rev_takeWhile: "suffix (rev (takeWhile P (rev xs))) xs"
proof -
  have "rev xs = takeWhile P (rev xs) @ dropWhile P (rev xs)" by simp
  then have "xs = rev (dropWhile P (rev xs)) @ rev (takeWhile P (rev xs))"
    by (metis rev_append rev_rev_ident)
  then show ?thesis by (rule suffixI)
qed

lemma suffix_last_dot:
  assumes "c \<in> set xs"
  shows "suffix (c # rev (takeWhile (\<lambda>x. x \<noteq> c) (rev xs))) xs"
proof -
  let ?t = "takeWhile (\<lambda>x. x \<noteq> c) (rev xs)" and ?d = "dropWhile (\<lambda>x. x \<noteq> c) (rev xs)"
  have "c \<in> set (rev xs)" using assms by simp
  then have "?d \<noteq> []" by (auto simp: dropWhile_eq_Nil_conv)
  moreover have "hd ?d = c"
    using \<open>?d \<noteq> []\<close> hd_dropWhile [of "\<lambda>x. x \<noteq> c" "rev xs"] by auto
  ultimately have d: "?d = c # tl ?d" by (cases ?d) auto
  have "rev xs = ?t @ ?d" by simp
  then have "rev xs = ?t @ c # tl ?d" using d by simp
  then have "xs = rev (tl ?d) @ c # rev ?t"
    by (metis rev_append rev_rev_ident rev.simps(2) append.assoc append_Cons append_Nil)
  then show ?thesis by (rule suffixI)
qed

lemma filepath_Ext_suffix: "suffix (filepath_Ext p) p"
proof -
  let ?final = "rev (takeWhile (\<lambda>c. c \<noteq> CHR ''/'') (rev p))"
  have f: "suffix ?final p" by (rule suffix_rev_takeWhile)
  show ?thesis
  proof (cases "CHR ''.'' \<in> set ?final")
    case True
    from suffix_last_dot [OF True] f
    have "suffix (CHR ''.'' # rev (takeWhile (\<lambda>x. x \<noteq> CHR ''.'') (rev ?final))) p"
      by (rule suffix_order.trans)
    with True show ?thesis by (simp add: filepath_Ext_def Let_def)
  next
    case False
    then show ?thesis by (simp add: filepath_Ext_def Let_def)
  qed
qed

lemma filepath_Ext_rdb: "filepath_Ext n = ''.rdb'' \<Longrightarrow> suffix ''.rdb'' n"
  using filepath_Ext_suffix [of n] by simp

lemma suffix_rdb_not_root: "suffix ''.rdb'' n \<Longrightarrow> n \<noteq> ''/''"
  by (auto simp: suffix_def)

lemma local_entries_loop_set:
  "set (local_entries_loop entries backups) =
     set backups \<union> {n. (n, False) \<in> set entries \<and> filepath_Ext n = ''.rdb''}"
  by (induction entries backups rule: local_entries_loop.induct) auto

lemma s3_contents_loop_set:
  "set (s3_contents_loop contents backups) =
     set backups \<union> {filepath_Base k | k. Some k \<in> set contents \<and>
                                       strings_HasSuffix (filepath_Base k) ''.rdb''}"
  by (induction contents backups rule: s3_contents_loop.induct)
     (auto simp: Let_def split: option.splits)

lemma gcp_iterator_loop_set:
  "gcp_iterator_loop it backups = Inr bs \<Longrightarrow>
   set bs = set backups \<union> {filepath_Base k | k. Inr k \<in> set it \<and>
                                       strings_HasSuffix (filepath_Base k) ''.rdb''}"
  by (induction it backups arbitrary: bs rule: gcp_iterator_loop.induct)
     (auto simp: Let_def)

lemma concat_pages_of: "concat (pages_of n xs) = xs"
proof (induction n xs rule: pages_of.induct)
  case (1 n xs)
  show ?case
  proof (cases "n = 0 \<or> length xs \<le> n")
    case True
    then show ?thesis by (subst pages_of.simps) simp
  next
    case False
    with "1.IH" show ?thesis by (subst pages_of.simps) simp
  qed
qed

lemma each_page_list_callback:
  "each_page s3_list_callback pages backups = s3_contents_loop (concat pages) backups"
proof (induction pages arbitrary: backups)
  case Nil
  then show ?case by simp
next
  case (Cons pg pgs)
  have app: "s3_contents_loop (xs @ ys) acc = s3_contents_loop ys (s3_contents_loop xs acc)"
    for xs ys acc
    by (induction xs acc rule: s3_contents_loop.induct) simp_all
  show ?case
    using Cons.IH by (simp add: s3_list_callback_def app)
qed

lemma os_ReadDir_entries:
  assumes "os_ReadDir name w = Inr entries" and "(n, isDir) \<in> set entries"
  shows "(\<exists>k \<in> fst ` set (files w). entry_of (filepath_Clean name) k \<and> n = filepath_Base k) \<and>
         isDir = (map_of (files w) (filepath_Join [filepath_Clean name, n]) = Some Directory)"
  using assms
  by (auto simp: os_ReadDir_def Let_def split: if_splits option.splits fnode.splits)

lemma entry_name_no_separator:
  "entry_of d k \<Longrightarrow> CHR ''/'' \<notin> set (filepath_Base k)"
  using filepath_Base_no_separator [of k] by (auto simp: entry_of_def)

lemma LocalStorage_List_names:
  assumes "LocalStorage_List l ctx w = (Inr backups, w1)" and "n \<in> set backups"
  shows "CHR ''/'' \<notin> set n \<and> suffix ''.rdb'' n \<and>
         map_of (files w) (filepath_Join [filepath_Clean (basePath l), n]) \<noteq> Some Directory"
proof -
  from assms(1) obtain entries where e: "os_ReadDir (basePath l) w = Inr entries"
    and b: "backups = sort_Strings (local_entries_loop entries [])"
    by (auto simp: LocalStorage_List_def split: sum.splits)
  from b assms(2) have "(n, False) \<in> set entries" and x: "filepath_Ext n = ''.rdb''"
    by (auto simp: sort_Strings_def local_entries_loop_set)
  from os_ReadDir_entries [OF e this(1)]
  obtain k where "entry_of (filepath_Clean (basePath l)) k" "n = filepath_Base k"
    and d: "map_of (files w) (filepath_Join [filepath_Clean (basePath l), n]) \<noteq> Some Directory"
    by auto
  then have "CHR ''/'' \<notin> set n" using entry_name_no_separator by blast
  with filepath_Ext_rdb [OF x] d show ?thesis by (intro conjI)
qed

lemma base_rdb_bare:
  "strings_HasSuffix (filepath_Base k) ''.rdb'' \<Longrightarrow>
   CHR ''/'' \<notin> set (filepath_Base k) \<and> suffix ''.rdb'' (filepath_Base k)"
  using filepath_Base_no_separator [of k] suffix_rdb_not_root [of "filepath_Base k"]
  by (auto simp: HasSuffix_suffix)

lemma s3_keys_stored:
  "k \<in> set (s3_keys bkt pfx w) \<Longrightarrow> \<exists>c. ((bkt, k), c) \<in> set (s3_objects w)"
  by (auto simp: s3_keys_def)

lemma S3Storage_List_names:
  assumes "S3Storage_List s ctx w = (Inr backups, w1)" and "n \<in> set backups"
  shows "CHR ''/'' \<notin> set n \<and> suffix ''.rdb'' n \<and>
         (\<exists>key c. ((bucket s, key), c) \<in> set (s3_objects w) \<and> n = filepath_Base key)"
proof -
  from assms(1) obtain pfx where
    b: "backups = sort_Strings (each_page s3_list_callback
          (pages_of (s3_page_size w) (map Some (s3_keys (bucket s) pfx w))) [])"
    by (auto simp: S3Storage_List_def s3_ListObjectsV2Pages_def Let_def
        split: option.splits prod.splits)
  from b assms(2) obtain k where k: "k \<in> set (s3_keys (bucket s) pfx w)"
    and n: "n = filepath_Base k" and sfx: "strings_HasSuffix (filepath_Base k) ''.rdb''"
    by (auto simp: sort_Strings_def each_page_list_callback concat_pages_of s3_contents_loop_set)
  from s3_keys_stored [OF k] base_rdb_bare [OF sfx] n show ?thesis by blast
qed

lemma gcs_Objects_stored:
  "Inr k \<in> set (gcs_Objects ctx bkt pfx w) \<Longrightarrow> \<exists>c. ((bkt, k), c) \<in> set (gcs_objects w)"
  by (auto simp: gcs_Objects_def split: option.splits)

lemma GCPStorage_List_names:
  assumes "GCPStorage_List g ctx w = (Inr backups, w1)" and "n \<in> set backups"
  shows "CHR ''/'' \<notin> set n \<and> suffix ''.rdb'' n \<and>
         (\<exists>key c. ((gcp_bucket g, key), c) \<in> set (gcs_objects w) \<and> n = filepath_Base key)"
proof -
  from assms(1) obtain pfx bs where
    l: "gcp_iterator_loop (gcs_Objects ctx (gcp_bucket g) pfx w) [] = Inr bs"
    and b: "backups = sort_Strings bs"
    by (auto simp: GCPStorage_List_def Let_def split: sum.splits)
  from gcp_iterator_loop_set [OF l] b assms(2)
  obtain k where k: "Inr k \<in> set (gcs_Objects ctx (gcp_bucket g) pfx w)"
    and n: "n = filepath_Base k" and sfx: "strings_HasSuffix (filepath_Base k) ''.rdb''"
    by (auto simp: sort_Strings_def)
  from gcs_Objects_stored [OF k] base_rdb_bare [OF sfx] n show ?thesis by blast
qed

text \<open>
  C9. Every name of a listing, on each of the three backends, holds no path separator
  and ends in \<open>.rdb\<close>. On the object stores it is the last element of the key of an
  object stored in the bucket (its base name, wherever below the prefix the object is).
  On the local backend no directory of the backup directory is listed, whatever its
  name.
\<close>

theorem list_names_bare:
  "(LocalStorage_List l ctx w = (Inr backups, w1) \<longrightarrow>
      (\<forall>n \<in> set backups.
         CHR ''/'' \<notin> set n \<and> suffix ''.rdb'' n \<and>
         map_of (files w) (filepath_Join [filepath_Clean (basePath l), n]) \<noteq> Some Directory)) \<and>
   (S3Storage_List s ctx w = (Inr backups, w1) \<longrightarrow>
      (\<forall>n \<in> set backups.
         CHR ''/'' \<notin> set n \<and> suffix ''.rdb'' n \<and>
         (\<exists>key c. ((bucket s, key), c) \<in> set (s3_objects w) \<and> n = filepath_Base key))) \<and>
   (GCPStorage_List g ctx w = (Inr backups, w1) \<longrightarrow>
      (\<forall>n \<in> set backups.
         CHR ''/'' \<notin> set n \<and> suffix ''.rdb'' n \<and>
         (\<exists>key c. ((gcp_bucket g, key), c) \<in> set (gcs_objects w) \<and> n = filepath_Base key)))"
  using LocalStorage_List_names [of l ctx w backups w1] S3Storage_List_names [of s ctx w backups w1]
    GCPStorage_List_names [of g ctx w backups w1]
  by blast

lemma List_keeps_world:
  "snd (LocalStorage_List l ctx w) = w"
  "snd (S3Storage_List s ctx w) = w"
  "snd (GCPStorage_List g ctx w) = w"
  by (simp_all add: LocalStorage_List_def S3Storage_List_def GCPStorage_List_def Let_def
      split: sum.splits prod.splits option.splits)

lemma demo_nested_local:
  "fst (LocalStorage_List demo_local Background demo_world_nested) = Inr demo_names"
  by code_simp

lemma demo_nested_s3:
  "fst (S3Storage_List demo_s3 Background demo_world_nested) = Inr [''b_2024-01-01_00-00-00.rdb'']"
  by code_simp

lemma demo_nested_gcp:
  "fst (GCPStorage_List demo_gcp Background demo_world_nested) = Inr [''b_2024-01-01_00-00-00.rdb'']"
  by code_simp

lemma demo_nested_dir:
  "map_of (files demo_world_nested) ''/backups/old.rdb'' = Some Directory"
  by (simp add: demo_world_nested_def demo_world_def)

theorem list_names_bare_witness:
  "LocalStorage_List demo_local Background demo_world_nested = (Inr demo_names, demo_world_nested) \<and>
   map_of (files demo_world_nested) ''/backups/old.rdb'' = Some Directory \<and>
   ''b_2024-01-05_00-00-00.rdb'' \<in> set demo_names \<and>
   (CHR ''/'' \<notin> set ''b_2024-01-05_00-00-00.rdb'' \<and> suffix ''.rdb'' ''b_2024-01-05_00-00-00.rdb'' \<and>
    map_of (files demo_world_nested)
      (filepath_Join [filepath_Clean (basePath demo_local), ''b_2024-01-05_00-00-00.rdb'']) \<noteq>
        Some Directory) \<and>
   S3Storage_List demo_s3 Background demo_world_nested =
     (Inr [''b_2024-01-01_00-00-00.rdb''], demo_world_nested) \<and>
   (CHR ''/'' \<notin> set ''b_2024-01-01_00-00-00.rdb'' \<and> suffix ''.rdb'' ''b_2024-01-01_00-00-00.rdb'' \<and>
    (\<exists>key c. ((bucket demo_s3, key), c) \<in> set (s3_objects demo_world_nested) \<and>
             ''b_2024-01-01_00-00-00.rdb'' = filepath_Base key)) \<and>
   GCPStorage_List demo_gcp Background demo_world_nested =
     (Inr [''b_2024-01-01_00-00-00.rdb''], demo_world_nested) \<and>
   (CHR ''/'' \<notin> set ''b_2024-01-01_00-00-00.rdb'' \<and> suffix ''.rdb'' ''b_2024-01-01_00-00-00.rdb'' \<and>
    (\<exists>key c. ((gcp_bucket demo_gcp, key), c) \<in> set (gcs_objects demo_world_nested) \<and>
             ''b_2024-01-01_00-00-00.rdb'' = filepath_Base key))"
proof -
  have l: "LocalStorage_List demo_local Background demo_world_nested =
      (Inr demo_names, demo_world_nested)"
    by (simp only: prod_eq_iff fst_conv snd_conv demo_nested_local List_keeps_world)
  have s: "S3Storage_List demo_s3 Background demo_world_nested =
      (Inr [''b_2024-01-01_00-00-00.rdb''], demo_world_nested)"
    by (simp only: prod_eq_iff fst_conv snd_conv demo_nested_s3 List_keeps_world)
  have g: "GCPStorage_List demo_gcp Background demo_world_nested =
      (Inr [''b_2024-01-01_00-00-00.rdb''], demo_world_nested)"
    by (simp only: prod_eq_iff fst_conv snd_conv demo_nested_gcp List_keeps_world)
  have m5: "''b_2024-01-05_00-00-00.rdb'' \<in> set demo_names"
    by (simp add: demo_names_def)
  have m1: "''b_2024-01-01_00-00-00.rdb'' \<in> set [''b_2024-01-01_00-00-00.rdb'']"
    by simp
  note a = list_names_bare [where l = demo_local and ctx = Background and w = demo_world_nested
      and backups = demo_names and ?w1.0 = demo_world_nested, THEN conjunct1, THEN mp, OF l,
      THEN bspec, OF m5]
  note b = list_names_bare [where s = demo_s3 and ctx = Background and w = demo_world_nested
      and backups = "[''b_2024-01-01_00-00-00.rdb'']" and ?w1.0 = demo_world_nested,
      THEN conjunct2, THEN conjunct1, THEN mp, OF s, THEN bspec, OF m1]
  note c = list_names_bare [where g = demo_gcp and ctx = Background and w = demo_world_nested
      and backups = "[''b_2024-01-01_00-00-00.rdb'']" and ?w1.0 = demo_world_nested,
      THEN conjunct2, THEN conjunct2, THEN mp, OF g, THEN bspec, OF m1]
  show ?thesis
    by (rule conjI [OF l], rule conjI [OF demo_nested_dir], rule conjI [OF m5],
        rule conjI [OF a], rule conjI [OF s], rule conjI [OF b], rule conjI [OF g], rule c)
qed

end
